theory Spec2Isabelle
  imports Complex_Main "HOL-Library.AList"
begin

section \<open>Python values the code handles\<close>

text \<open>
  A Python \<^verbatim>\<open>str\<close> is a \<^typ>\<open>string\<close>. The two string methods the code calls are
  modelled on the ASCII range: \<^verbatim>\<open>lower()\<close> maps \<^verbatim>\<open>A\<close>..\<^verbatim>\<open>Z\<close> and leaves every other
  character alone, \<^verbatim>\<open>strip()\<close> removes the ASCII characters Python counts as
  whitespace. No character outside ASCII lower-cases to a letter of the constants the
  code compares with (the allow-list of extensions and the label tables), so the
  comparisons agree with Python's on every string.
\<close>

definition lower_table :: "(char \<times> char) list" where
  "lower_table = zip ''ABCDEFGHIJKLMNOPQRSTUVWXYZ'' ''abcdefghijklmnopqrstuvwxyz''"

definition lower_char :: "char \<Rightarrow> char" where
  "lower_char c = (case map_of lower_table c of Some d \<Rightarrow> d | None \<Rightarrow> c)"

definition lower :: "string \<Rightarrow> string" where
  "lower s = map lower_char s"

definition is_space :: "char \<Rightarrow> bool" where
  "is_space c = (c \<in> set [CHR 0x09, CHR 0x0A, CHR 0x0B, CHR 0x0C, CHR 0x0D,
                            CHR 0x1C, CHR 0x1D, CHR 0x1E, CHR 0x1F, CHR '' ''])"

definition strip :: "string \<Rightarrow> string" where
  "strip s = rev (dropWhile is_space (rev (dropWhile is_space s)))"

subsection \<open>Paths\<close>

text \<open>
  A \<^verbatim>\<open>pathlib.Path\<close> is the list of its components; the empty list is the anchor
  (the root, or the current directory of a relative path). \<^verbatim>\<open>name\<close>, \<^verbatim>\<open>parent\<close>,
  \<^verbatim>\<open>suffix\<close> and \<^verbatim>\<open>stem\<close> follow pathlib: the suffix starts at the last dot of the
  name, unless that dot is the first or the last character.
\<close>

type_synonym path = "string list"

definition name :: "path \<Rightarrow> string" where
  "name p = (if p = [] then [] else last p)"

definition parent :: "path \<Rightarrow> path" where
  "parent p = butlast p"

fun rfind :: "char \<Rightarrow> string \<Rightarrow> nat option" where
  "rfind c [] = None"
| "rfind c (x # xs) =
     (case rfind c xs of
        Some i \<Rightarrow> Some (Suc i)
      | None \<Rightarrow> if x = c then Some 0 else None)"

definition suffix :: "path \<Rightarrow> string" where
  "suffix p =
     (let n = name p in
      case rfind CHR ''.'' n of
        None \<Rightarrow> []
      | Some i \<Rightarrow> if 0 < i \<and> Suc i < length n then drop i n else [])"

definition stem :: "path \<Rightarrow> string" where
  "stem p =
     (let n = name p in
      case rfind CHR ''.'' n of
        None \<Rightarrow> n
      | Some i \<Rightarrow> if 0 < i \<and> Suc i < length n then take i n else n)"

text \<open>\<^verbatim>\<open>directory / filename\<close>, for a file name of one component.\<close>

definition joinpath :: "path \<Rightarrow> string \<Rightarrow> path" where
  "joinpath d f = d @ [f]"

text \<open>
  What a caller can pass where the code expects a \<^verbatim>\<open>Path\<close>: the functions of
  \<^verbatim>\<open>file_handler.py\<close> test their arguments with \<^verbatim>\<open>isinstance(_, Path)\<close>.
\<close>

datatype pyval = PyPath path | PyStr string | PyInt int | PyNone

section \<open>The file system and the record of calls\<close>

text \<open>
  The file system holds regular files (with their text) and directories, as an
  association list from paths to nodes; the anchor always exists and is a directory.
  \<open>denied\<close> lists the paths the operating system refuses to create or to open for
  writing, \<open>unreadable\<close> the files whose reading fails (permissions, bytes that are
  not UTF-8, I/O errors). \<open>calls\<close> records, in order, the files opened for writing
  and the calls made to the external models.
\<close>

datatype node = File string | Dir

datatype event =
    OpenWrite path
  | Classify path
  | LocalOCR path
  | CloudLLM path string

record world =
  nodes :: "(path \<times> node) list"
  denied :: "path list"
  unreadable :: "path list"
  calls :: "event list"

datatype os_error = EEXIST | ENOENT | ENOTDIR | EACCES | EISDIR

definition lookup :: "world \<Rightarrow> path \<Rightarrow> node option" where
  "lookup w p = (if p = [] then Some Dir else map_of (nodes w) p)"

definition exists :: "world \<Rightarrow> path \<Rightarrow> bool" where
  "exists w p = (lookup w p \<noteq> None)"

definition is_file :: "world \<Rightarrow> path \<Rightarrow> bool" where
  "is_file w p = (case lookup w p of Some (File c) \<Rightarrow> True | _ \<Rightarrow> False)"

definition is_dir :: "world \<Rightarrow> path \<Rightarrow> bool" where
  "is_dir w p = (lookup w p = Some Dir)"

text \<open>\<^verbatim>\<open>os.mkdir\<close>: one directory, whose parent must be there.\<close>

definition os_mkdir :: "world \<Rightarrow> path \<Rightarrow> os_error + world" where
  "os_mkdir w p =
     (if lookup w p \<noteq> None then Inl EEXIST
      else case lookup w (parent p) of
        None \<Rightarrow> Inl ENOENT
      | Some (File c) \<Rightarrow> Inl ENOTDIR
      | Some Dir \<Rightarrow>
          if p \<in> set (denied w) then Inl EACCES
          else Inr (w\<lparr>nodes := AList.update p Dir (nodes w)\<rparr>))"

text \<open>
  \<^verbatim>\<open>Path.mkdir(parents=False, exist_ok=True)\<close>: an error other than a missing parent
  is forgiven when the path is a directory already.
\<close>

definition mkdir_exist_ok :: "world \<Rightarrow> path \<Rightarrow> os_error option \<times> world" where
  "mkdir_exist_ok w p =
     (case os_mkdir w p of
        Inr w' \<Rightarrow> (None, w')
      | Inl ENOENT \<Rightarrow> (Some ENOENT, w)
      | Inl e \<Rightarrow> if is_dir w p then (None, w) else (Some e, w))"

text \<open>
  \<^verbatim>\<open>Path.mkdir(parents=True, exist_ok=True)\<close>: when the parent is missing it is made
  first, the same way, and the directory after it. A failure half way leaves the
  ancestors already made.
\<close>

function mkdir_parents :: "world \<Rightarrow> path \<Rightarrow> os_error option \<times> world" where
  "mkdir_parents w p =
     (case os_mkdir w p of
        Inr w' \<Rightarrow> (None, w')
      | Inl e \<Rightarrow>
          if e = ENOENT then
            (if parent p = p then (Some ENOENT, w)
             else (case mkdir_parents w (parent p) of
                     (Some e', w1) \<Rightarrow> (Some e', w1)
                   | (None, w1) \<Rightarrow> mkdir_exist_ok w1 p))
          else if is_dir w p then (None, w) else (Some e, w))"
  by pat_completeness auto
termination
proof (relation "measure (\<lambda>(w, p). length p)")
  show "wf (measure (\<lambda>(w, p). length p))" by simp
next
  fix w :: world and p :: path and e :: os_error
  assume "parent p \<noteq> p"
  then have "p \<noteq> []" by (auto simp: parent_def)
  then show "((w, parent p), (w, p)) \<in> measure (\<lambda>(w, p). length p)"
    by (simp add: parent_def)
qed

text \<open>
  \<^verbatim>\<open>open(path, "w", encoding="utf-8")\<close> followed by \<^verbatim>\<open>write(text)\<close>: the file is
  created, or an existing one replaced; the attempt is recorded.
\<close>

definition write_text :: "world \<Rightarrow> path \<Rightarrow> string \<Rightarrow> os_error option \<times> world" where
  "write_text w p text =
     (let w0 = w\<lparr>calls := calls w @ [OpenWrite p]\<rparr> in
      case lookup w (parent p) of
        None \<Rightarrow> (Some ENOENT, w0)
      | Some (File c) \<Rightarrow> (Some ENOTDIR, w0)
      | Some Dir \<Rightarrow>
          if is_dir w p then (Some EISDIR, w0)
          else if p \<in> set (denied w) then (Some EACCES, w0)
          else (None, w0\<lparr>nodes := AList.update p (File text) (nodes w)\<rparr>))"

text \<open>\<^verbatim>\<open>open(path, "r", encoding="utf-8")\<close> followed by \<^verbatim>\<open>read()\<close>.\<close>

definition read_text :: "world \<Rightarrow> path \<Rightarrow> string option" where
  "read_text w p =
     (case lookup w p of
        Some (File c) \<Rightarrow> if p \<in> set (unreadable w) then None else Some c
      | _ \<Rightarrow> None)"

section \<open>file\_handler.py\<close>

definition SUPPORTED_IMAGE_EXTENSIONS :: "string list" where
  "SUPPORTED_IMAGE_EXTENSIONS = [''.jpg'', ''.jpeg'']"

definition validate_image_file :: "world \<Rightarrow> pyval \<Rightarrow> bool" where
  "validate_image_file w image_path =
     (case image_path of
        PyPath p \<Rightarrow>
          if \<not> exists w p then False
          else if \<not> is_file w p then False
          else if lower (suffix p) \<notin> set SUPPORTED_IMAGE_EXTENSIONS then False
          else True
      | _ \<Rightarrow> False)"

text \<open>Lines 88 to 105 of \<^verbatim>\<open>save_transcription\<close>: the name of the output file and the write.\<close>

definition write_transcription :: "world \<Rightarrow> string \<Rightarrow> path \<Rightarrow> path \<Rightarrow> path option \<times> world" where
  "write_transcription w transcription_text input_image_path output_dir =
     (let output_filename = stem input_image_path @ ''.txt'';
          output_file_path = joinpath output_dir output_filename
      in case write_text w output_file_path transcription_text of
           (None, w') \<Rightarrow> (Some output_file_path, w')
         | (Some e, w') \<Rightarrow> (None, w'))"

definition save_transcription :: "world \<Rightarrow> string \<Rightarrow> pyval \<Rightarrow> pyval \<Rightarrow> path option \<times> world" where
  "save_transcription w transcription_text input_image_path output_directory =
     (case input_image_path of
        PyPath img \<Rightarrow>
          (case output_directory of
             PyNone \<Rightarrow> write_transcription w transcription_text img (parent img)
           | PyPath output_dir \<Rightarrow>
               (case mkdir_parents w output_dir of
                  (Some e, w1) \<Rightarrow> (None, w1)
                | (None, w1) \<Rightarrow> write_transcription w1 transcription_text img output_dir)
           | _ \<Rightarrow> (None, w))
      | _ \<Rightarrow> (None, w))"

definition load_prompt_file :: "world \<Rightarrow> pyval \<Rightarrow> string option" where
  "load_prompt_file w prompt_file_path =
     (case prompt_file_path of
        PyPath p \<Rightarrow>
          if \<not> is_file w p then None
          else (case read_text w p of
                  None \<Rightarrow> None
                | Some content \<Rightarrow> Some (strip content))
      | _ \<Rightarrow> None)"

section \<open>The external models\<close>

text \<open>
  The classifier pipeline, the handwriting model and the chat API are outside the
  program: the environment gives what each returns for a call. A score is a real
  number (the finite values of a Python float; the threshold 0.5 is exact).
  \<open>OPENAI_API_CONFIGURED\<close> is the flag as \<^verbatim>\<open>transcription_tool.py\<close> imported it,
  \<open>client_configured\<close> the state inside \<^verbatim>\<open>llm_handler.py\<close> and
  \<open>configure_openai_api\<close> what a new call of that function would return.
\<close>

datatype dit_item = Prediction string real | EmptyItem | Malformed

datatype dit_output = PipelineRaises | NotAList | Predictions "dit_item list"

datatype api_result = ApiRaises | Response "string option"

record env =
  PROJECT_ROOT :: path
  OPENAI_API_CONFIGURED :: bool
  classifier_initialized :: bool
  dit_pipeline :: "path \<Rightarrow> dit_output"
  ocr_model_initialized :: bool
  trocr :: "path \<Rightarrow> string option"
  client_configured :: bool
  configure_openai_api :: bool
  encode_image :: "path \<Rightarrow> string option"
  chat_completion :: "string \<Rightarrow> string \<Rightarrow> api_result"

section \<open>local\_image\_classifier.py\<close>

definition MIN_CONFIDENCE_SCORE :: real where
  "MIN_CONFIDENCE_SCORE = 1 / 2"

text \<open>Lines 93 to 106: from the top label (lower-cased) and its score to the primary class.\<close>

definition map_top_label :: "string \<Rightarrow> real \<Rightarrow> string" where
  "map_top_label top_label top_score =
     (if top_score < MIN_CONFIDENCE_SCORE then ''undetermined''
      else if top_label = ''handwritten'' then ''handwritten''
      else if top_label \<in> set [''letter'', ''form'', ''email'', ''memo'', ''resume'',
                ''scientific publication'', ''report'', ''specification'',
                ''news article'', ''invoice''] then ''typewritten''
      else if top_label \<in> set [''advertisement'', ''budget'', ''file folder'',
                ''presentation'', ''questionnaire'', ''scientific report'']
           then ''other_document_type''
      else ''other_document_type'')"

definition classify_text_type_local :: "env \<Rightarrow> path \<Rightarrow> string option \<times> dit_item list option" where
  "classify_text_type_local env image_path =
     (if \<not> classifier_initialized env then (None, None)
      else case dit_pipeline env image_path of
        PipelineRaises \<Rightarrow> (None, None)
      | NotAList \<Rightarrow> (Some ''undetermined'', None)
      | Predictions [] \<Rightarrow> (Some ''undetermined'', None)
      | Predictions (EmptyItem # rest) \<Rightarrow> (Some ''undetermined'', Some (EmptyItem # rest))
      | Predictions (Malformed # rest) \<Rightarrow> (None, None)
      | Predictions (Prediction label score # rest) \<Rightarrow>
          (Some (map_top_label (lower label) score), Some (Prediction label score # rest)))"

section \<open>llm\_handler.py\<close>

definition image_to_base64 :: "env \<Rightarrow> world \<Rightarrow> path \<Rightarrow> string option" where
  "image_to_base64 env w image_path =
     (if \<not> is_file w image_path then None else encode_image env image_path)"

definition get_transcription_from_llm :: "env \<Rightarrow> world \<Rightarrow> path \<Rightarrow> string \<Rightarrow> string option" where
  "get_transcription_from_llm env w image_path prompt_text =
     (if \<not> client_configured env \<and> \<not> configure_openai_api env then None
      else case image_to_base64 env w image_path of
        None \<Rightarrow> None
      | Some base64_image \<Rightarrow>
          if base64_image = [] then None
          else (case chat_completion env prompt_text base64_image of
                  ApiRaises \<Rightarrow> None
                | Response None \<Rightarrow> None
                | Response (Some content) \<Rightarrow>
                    if content = [] then None else Some (strip content)))"

definition get_transcription_from_local_ocr :: "env \<Rightarrow> path \<Rightarrow> string option" where
  "get_transcription_from_local_ocr env image_path =
     (if \<not> ocr_model_initialized env then None
      else case trocr env image_path of
        None \<Rightarrow> None
      | Some transcription \<Rightarrow> Some (strip transcription))"

section \<open>transcription\_tool.py\<close>




datatype backend = LocalRecognizer | CloudTranscriber

definition effective_image_type :: "string option \<Rightarrow> string" where
  "effective_image_type primary_classification =
     (case primary_classification of None \<Rightarrow> ''undetermined'' | Some c \<Rightarrow> c)"

text \<open>The test of line 136.\<close>

definition select_backend :: "string \<Rightarrow> backend" where
  "select_backend image_type =
     (if image_type = ''handwritten'' then LocalRecognizer else CloudTranscriber)"

definition as_pyval :: "path option \<Rightarrow> pyval" where
  "as_pyval d = (case d of None \<Rightarrow> PyNone | Some p \<Rightarrow> PyPath p)"

text \<open>Lines 168 to 175: the transcription is saved as it came.\<close>

definition save_result :: "world \<Rightarrow> string \<Rightarrow> path \<Rightarrow> path option \<Rightarrow> bool \<times> world" where
  "save_result w transcription image_path output_dir =
     (case save_transcription w transcription (PyPath image_path) (as_pyval output_dir) of
        (Some saved_path, w') \<Rightarrow> (True, w')
      | (None, w') \<Rightarrow> (False, w'))"

definition process_single_image ::
    "env \<Rightarrow> world \<Rightarrow> path \<Rightarrow> string \<Rightarrow> path option \<Rightarrow> bool \<times> world" where
  "process_single_image env w image_path prompt_text output_dir =
     (if \<not> validate_image_file w (PyPath image_path) then (False, w)
      else
        let primary_classification = fst (classify_text_type_local env image_path);
            w1 = w\<lparr>calls := calls w @ [Classify image_path]\<rparr>
        in case select_backend (effective_image_type primary_classification) of
             LocalRecognizer \<Rightarrow>
               (let w2 = w1\<lparr>calls := calls w1 @ [LocalOCR image_path]\<rparr>
                in case get_transcription_from_local_ocr env image_path of
                     None \<Rightarrow> (False, w2)
                   | Some transcription \<Rightarrow> save_result w2 transcription image_path output_dir)
           | CloudTranscriber \<Rightarrow>
               if \<not> OPENAI_API_CONFIGURED env then (False, w1)
               else
                 (let w2 = w1\<lparr>calls := calls w1 @ [CloudLLM image_path prompt_text]\<rparr>
                  in case get_transcription_from_llm env w1 image_path prompt_text of
                       None \<Rightarrow> (False, w2)
                     | Some transcription \<Rightarrow> save_result w2 transcription image_path output_dir))"

subsection \<open>The batch\<close>

record counters =
  found_image_files :: bool
  processed_files_count :: nat
  successful_files_count :: nat
  failed_files_count :: nat

definition no_counts :: counters where
  "no_counts = \<lparr>found_image_files = False, processed_files_count = 0,
                 successful_files_count = 0, failed_files_count = 0\<rparr>"

text \<open>\<^verbatim>\<open>Path.iterdir()\<close>: the immediate entries of a directory, each once.\<close>

definition iterdir :: "world \<Rightarrow> path \<Rightarrow> path list" where
  "iterdir w d = filter (\<lambda>p. p \<noteq> [] \<and> parent p = d) (remdups (map fst (nodes w)))"

definition supported :: "path \<Rightarrow> bool" where
  "supported p = (lower (suffix p) \<in> set SUPPORTED_IMAGE_EXTENSIONS)"

text \<open>The loop of lines 217 to 228, over the entries listed when it starts.\<close>

fun process_items ::
    "env \<Rightarrow> string \<Rightarrow> path \<Rightarrow> path list \<Rightarrow> counters \<times> world \<Rightarrow> counters \<times> world" where
  "process_items env prompt_text actual_output_dir [] (cnt, w) = (cnt, w)"
| "process_items env prompt_text actual_output_dir (item_path # rest) (cnt, w) =
     (if is_file w item_path \<and> supported item_path then
        (let cnt1 = cnt\<lparr>found_image_files := True,
                         processed_files_count := processed_files_count cnt + 1\<rparr>
         in case process_single_image env w item_path prompt_text (Some actual_output_dir) of
              (True, w') \<Rightarrow>
                process_items env prompt_text actual_output_dir rest
                  (cnt1\<lparr>successful_files_count := successful_files_count cnt1 + 1\<rparr>, w')
            | (False, w') \<Rightarrow>
                process_items env prompt_text actual_output_dir rest
                  (cnt1\<lparr>failed_files_count := failed_files_count cnt1 + 1\<rparr>, w'))
      else process_items env prompt_text actual_output_dir rest (cnt, w))"

definition process_directory ::
    "env \<Rightarrow> world \<Rightarrow> path \<Rightarrow> string \<Rightarrow> path option \<Rightarrow> bool \<times> counters \<times> world" where
  "process_directory env w image_dir_path prompt_text output_dir_arg =
     (if \<not> is_dir w image_dir_path then (False, no_counts, w)
      else
        let actual_output_dir =
              (case output_dir_arg of Some d \<Rightarrow> d | None \<Rightarrow> image_dir_path);
            (cnt, w') = process_items env prompt_text actual_output_dir
                          (iterdir w image_dir_path) (no_counts, w)
        in if \<not> found_image_files cnt then (True, cnt, w')
           else if failed_files_count cnt > 0 then (False, cnt, w')
           else (True, cnt, w'))"

subsection \<open>The command line\<close>

record args =
  image_file :: "path option"
  image_dir :: "path option"
  prompt_file :: "path option"
  output_dir :: "path option"


section \<open>Notions the statements use\<close>

text \<open>
  The outcome of every item the loop processes, in the order of the listing: the item
  and what \<open>process_single_image\<close> returned for it, in the file system the items before
  it left.
\<close>

fun item_results :: "env \<Rightarrow> string \<Rightarrow> path \<Rightarrow> path list \<Rightarrow> world \<Rightarrow> (path \<times> bool) list" where
  "item_results env prompt_text actual_output_dir [] w = []"
| "item_results env prompt_text actual_output_dir (item_path # rest) w =
     (if is_file w item_path \<and> supported item_path then
        (case process_single_image env w item_path prompt_text (Some actual_output_dir) of
           (ok, w') \<Rightarrow>
             (item_path, ok) # item_results env prompt_text actual_output_dir rest w')
      else item_results env prompt_text actual_output_dir rest w)"

text \<open>The entries of a directory the batch considers: regular files with a supported extension.\<close>

definition considered :: "world \<Rightarrow> path \<Rightarrow> path list" where
  "considered w d = filter (\<lambda>p. is_file w p \<and> supported p) (iterdir w d)"

text \<open>
  Every entry of the file system lies in a directory, as in a real one. The code does
  not need it; it is what makes an ancestor of a directory a directory.
\<close>

definition well_formed :: "world \<Rightarrow> bool" where
  "well_formed w = (\<forall>p \<in> set (map fst (nodes w)). is_dir w (parent p))"

text \<open>The backend \<open>process_single_image\<close> chooses for an image, and the text that backend returns.\<close>

definition selected_backend :: "env \<Rightarrow> path \<Rightarrow> backend" where
  "selected_backend env image_path =
     select_backend (effective_image_type (fst (classify_text_type_local env image_path)))"

definition backend_text :: "env \<Rightarrow> world \<Rightarrow> path \<Rightarrow> string \<Rightarrow> string option" where
  "backend_text env w image_path prompt_text =
     (case selected_backend env image_path of
        LocalRecognizer \<Rightarrow> get_transcription_from_local_ocr env image_path
      | CloudTranscriber \<Rightarrow> get_transcription_from_llm env w image_path prompt_text)"

text \<open>Where \<open>save_transcription\<close> writes: the directory and the file.\<close>

definition target_dir :: "path \<Rightarrow> path option \<Rightarrow> path" where
  "target_dir image_path out_dir =
     (case out_dir of Some d \<Rightarrow> d | None \<Rightarrow> parent image_path)"

definition target_path :: "path \<Rightarrow> path option \<Rightarrow> path" where
  "target_path image_path out_dir =
     joinpath (target_dir image_path out_dir) (stem image_path @ ''.txt'')"


text \<open>The outcomes of a batch and its counters, as \<open>process_directory\<close> computes them.\<close>

definition batch_results :: "env \<Rightarrow> world \<Rightarrow> path \<Rightarrow> string \<Rightarrow> path option \<Rightarrow> (path \<times> bool) list" where
  "batch_results env w d prompt_text out_dir =
     item_results env prompt_text (case out_dir of Some x \<Rightarrow> x | None \<Rightarrow> d) (iterdir w d) w"

definition batch_failures :: "env \<Rightarrow> world \<Rightarrow> path \<Rightarrow> string \<Rightarrow> path option \<Rightarrow> nat" where
  "batch_failures env w d prompt_text out_dir =
     length (filter (\<lambda>r. \<not> snd r) (batch_results env w d prompt_text out_dir))"

definition batch_success :: "env \<Rightarrow> world \<Rightarrow> path \<Rightarrow> string \<Rightarrow> path option \<Rightarrow> bool" where
  "batch_success env w d prompt_text out_dir =
     fst (process_directory env w d prompt_text out_dir)"

definition batch_counters :: "env \<Rightarrow> world \<Rightarrow> path \<Rightarrow> string \<Rightarrow> path option \<Rightarrow> counters" where
  "batch_counters env w d prompt_text out_dir =
     fst (snd (process_directory env w d prompt_text out_dir))"

definition batch_calls :: "env \<Rightarrow> world \<Rightarrow> path \<Rightarrow> string \<Rightarrow> path option \<Rightarrow> event list" where
  "batch_calls env w d prompt_text out_dir =
     calls (snd (snd (process_directory env w d prompt_text out_dir)))"

section \<open>A concrete file system and environment\<close>

text \<open>
  The inputs the theorems below are tried on. The directory \<open>docs\<close> holds four images,
  a file that is not an image and a directory named like one; \<open>out\<close> holds an older
  transcription; nothing may be created under \<open>restricted\<close>. The classifier finds
  handwriting in \<open>photo.jpg\<close> and \<open>report.jpg\<close>, a form in \<open>form.jpg\<close>, and is unsure
  about \<open>blurry.JPG\<close>; the handwriting model reads \<open>photo.jpg\<close> and fails on
  \<open>report.jpg\<close>.
\<close>

definition example_world :: world where
  "example_world =
     \<lparr>nodes = [([''docs''], Dir),
               ([''docs'', ''photo.jpg''], File ''photo''),
               ([''docs'', ''form.jpg''], File ''form''),
               ([''docs'', ''report.jpg''], File ''report''),
               ([''docs'', ''blurry.JPG''], File ''blurry''),
               ([''docs'', ''notes.png''], File ''notes''),
               ([''docs'', ''scans.jpg''], Dir),
               ([''out''], Dir),
               ([''out'', ''photo.txt''], File ''old text''),
               ([''prompts''], Dir),
               ([''prompts'', ''blank.txt''], File [CHR '' '', CHR 0x0A, CHR 0x09]),
               ([''prompts'', ''prompt.txt''], File ''Transcribe this.'')],
      denied = [[''restricted'']],
      unreadable = [],
      calls = []\<rparr>"

definition example_env :: env where
  "example_env =
     \<lparr>PROJECT_ROOT = [''project''],
      OPENAI_API_CONFIGURED = True,
      classifier_initialized = True,
      dit_pipeline = (\<lambda>p.
        if p = [''docs'', ''photo.jpg''] then
          Predictions [Prediction ''handwritten'' (92 / 100), Prediction ''letter'' (5 / 100)]
        else if p = [''docs'', ''report.jpg''] then
          Predictions [Prediction ''Handwritten'' (9 / 10)]
        else if p = [''docs'', ''form.jpg''] then
          Predictions [Prediction ''form'' (8 / 10)]
        else if p = [''docs'', ''blurry.JPG''] then
          Predictions [Prediction ''handwritten'' (2 / 10)]
        else PipelineRaises),
      ocr_model_initialized = True,
      trocr = (\<lambda>p. if p = [''docs'', ''photo.jpg''] then Some ''Dear Sir '' else None),
      client_configured = True,
      configure_openai_api = True,
      encode_image = (\<lambda>p. Some ''data:image/jpeg;base64,AAAA''),
      chat_completion = (\<lambda>prompt_text base64_image. Response (Some ''Invoice #221''))\<rparr>"

section \<open>Facts about strings and paths\<close>

declare mkdir_parents.simps [simp del]

lemma rfind_append:
  "rfind c (s @ t) = (case rfind c t of Some i \<Rightarrow> Some (length s + i) | None \<Rightarrow> rfind c s)"
  by (induction s) (auto split: option.splits)

lemma rfind_less: "rfind c s = Some i \<Longrightarrow> i < length s"
  by (induction s arbitrary: i) (auto split: option.splits if_splits)

lemma stem_joinpath_txt:
  assumes "s \<noteq> []"
  shows "stem (joinpath d (s @ ''.txt'')) = s"
proof -
  have "rfind CHR ''.'' (s @ ''.txt'') = Some (length s)"
    by (simp add: rfind_append)
  with assms show ?thesis
    by (simp add: stem_def joinpath_def name_def)
qed

lemma suffix_stem_nonempty:
  assumes "suffix p \<noteq> []"
  shows "stem p \<noteq> []"
  using assms
  by (auto simp: suffix_def stem_def Let_def split: option.splits if_splits dest: rfind_less)

lemma lower_Nil_iff: "lower s = [] \<longleftrightarrow> s = []"
  by (simp add: lower_def)

lemma supported_stem_nonempty: "supported p \<Longrightarrow> stem p \<noteq> []"
proof -
  assume "supported p"
  then have "lower (suffix p) \<noteq> []"
    by (auto simp: supported_def SUPPORTED_IMAGE_EXTENSIONS_def)
  then have "suffix p \<noteq> []" by (simp add: lower_Nil_iff)
  then show ?thesis by (rule suffix_stem_nonempty)
qed


section \<open>Facts about the file system\<close>

lemma os_mkdir_keeps:
  assumes "os_mkdir w p = Inr w'" and "exists w q"
  shows "lookup w' q = lookup w q"
  using assms
  by (auto simp: os_mkdir_def exists_def lookup_def update_conv'
           split: if_splits option.splits node.splits)

lemma os_mkdir_fields:
  assumes "os_mkdir w p = Inr w'"
  shows "denied w' = denied w \<and> unreadable w' = unreadable w \<and> calls w' = calls w"
  using assms
  by (auto simp: os_mkdir_def split: if_splits option.splits node.splits)

lemma os_mkdir_is_dir:
  assumes "os_mkdir w p = Inr w'"
  shows "is_dir w' p"
  using assms
  by (auto simp: os_mkdir_def is_dir_def lookup_def update_conv'
           split: if_splits option.splits node.splits)

lemma mkdir_exist_ok_keeps:
  assumes "mkdir_exist_ok w p = (r, w')" and "exists w q"
  shows "lookup w' q = lookup w q"
  using assms
  by (auto simp: mkdir_exist_ok_def split: sum.splits os_error.splits if_splits
           dest: os_mkdir_keeps)

lemma mkdir_exist_ok_fields:
  assumes "mkdir_exist_ok w p = (r, w')"
  shows "denied w' = denied w \<and> unreadable w' = unreadable w \<and> calls w' = calls w"
  using assms
  by (auto simp: mkdir_exist_ok_def split: sum.splits os_error.splits if_splits
           dest: os_mkdir_fields)

lemma mkdir_exist_ok_is_dir:
  assumes "mkdir_exist_ok w p = (None, w')"
  shows "is_dir w' p"
  using assms
  by (auto simp: mkdir_exist_ok_def split: sum.splits os_error.splits if_splits
           dest: os_mkdir_is_dir)

lemma mkdir_parents_keeps:
  "mkdir_parents w p = (r, w') \<Longrightarrow> exists w q \<Longrightarrow> lookup w' q = lookup w q"
proof (induction w p arbitrary: r w' rule: mkdir_parents.induct)
  case (1 w p)
  show ?case
  proof (cases "os_mkdir w p")
    case (Inr w2)
    with "1.prems" show ?thesis
      by (auto simp: mkdir_parents.simps[of w p] dest: os_mkdir_keeps)
  next
    case (Inl e)
    show ?thesis
    proof (cases "e = ENOENT \<and> parent p \<noteq> p")
      case False
      with Inl "1.prems" show ?thesis
        by (auto simp: mkdir_parents.simps[of w p] split: if_splits)
    next
      case True
      obtain r1 w1 where rec: "mkdir_parents w (parent p) = (r1, w1)"
        by (cases "mkdir_parents w (parent p)")
      have keep1: "lookup w1 q = lookup w q"
        using "1.IH"[OF Inl _ _ rec "1.prems"(2)] True by simp
      show ?thesis
      proof (cases r1)
        case (Some e')
        with Inl True rec "1.prems"(1) keep1 show ?thesis
          by (simp add: mkdir_parents.simps[of w p])
      next
        case None
        with Inl True rec "1.prems"(1) have "mkdir_exist_ok w1 p = (r, w')"
          by (simp add: mkdir_parents.simps[of w p])
        moreover have "exists w1 q" using keep1 "1.prems"(2) by (simp add: exists_def)
        ultimately have "lookup w' q = lookup w1 q" by (rule mkdir_exist_ok_keeps)
        with keep1 show ?thesis by simp
      qed
    qed
  qed
qed

lemma mkdir_parents_fields:
  "mkdir_parents w p = (r, w') \<Longrightarrow>
     denied w' = denied w \<and> unreadable w' = unreadable w \<and> calls w' = calls w"
proof (induction w p arbitrary: r w' rule: mkdir_parents.induct)
  case (1 w p)
  show ?case
  proof (cases "os_mkdir w p")
    case (Inr w2)
    with "1.prems" show ?thesis
      by (auto simp: mkdir_parents.simps[of w p] dest: os_mkdir_fields)
  next
    case (Inl e)
    show ?thesis
    proof (cases "e = ENOENT \<and> parent p \<noteq> p")
      case False
      with Inl "1.prems" show ?thesis
        by (auto simp: mkdir_parents.simps[of w p] split: if_splits)
    next
      case True
      obtain r1 w1 where rec: "mkdir_parents w (parent p) = (r1, w1)"
        by (cases "mkdir_parents w (parent p)")
      have f1: "denied w1 = denied w \<and> unreadable w1 = unreadable w \<and> calls w1 = calls w"
        using "1.IH"[OF Inl _ _ rec] True by simp
      show ?thesis
      proof (cases r1)
        case (Some e')
        with Inl True rec "1.prems"(1) f1 show ?thesis
          by (simp add: mkdir_parents.simps[of w p])
      next
        case None
        with Inl True rec "1.prems"(1) have "mkdir_exist_ok w1 p = (r, w')"
          by (simp add: mkdir_parents.simps[of w p])
        then have "denied w' = denied w1 \<and> unreadable w' = unreadable w1 \<and> calls w' = calls w1"
          by (rule mkdir_exist_ok_fields)
        with f1 show ?thesis by simp
      qed
    qed
  qed
qed

lemma mkdir_parents_is_dir:
  "mkdir_parents w p = (None, w') \<Longrightarrow> is_dir w' p"
proof (induction w p arbitrary: w' rule: mkdir_parents.induct)
  case (1 w p)
  show ?case
  proof (cases "os_mkdir w p")
    case (Inr w2)
    with "1.prems" show ?thesis
      by (auto simp: mkdir_parents.simps[of w p] dest: os_mkdir_is_dir)
  next
    case (Inl e)
    show ?thesis
    proof (cases "e = ENOENT \<and> parent p \<noteq> p")
      case False
      with Inl "1.prems" show ?thesis
        by (auto simp: mkdir_parents.simps[of w p] split: if_splits)
    next
      case True
      obtain r1 w1 where rec: "mkdir_parents w (parent p) = (r1, w1)"
        by (cases "mkdir_parents w (parent p)")
      with Inl True "1.prems" have "r1 = None" and "mkdir_exist_ok w1 p = (None, w')"
        by (auto simp: mkdir_parents.simps[of w p] split: option.splits)
      then show ?thesis by (auto dest: mkdir_exist_ok_is_dir)
    qed
  qed
qed

lemma os_mkdir_well_formed:
  assumes "os_mkdir w p = Inr w'" and "well_formed w"
  shows "well_formed w'"
proof -
  from assms(1) have absent: "lookup w p = None" and par: "is_dir w (parent p)"
    and w': "w' = w\<lparr>nodes := AList.update p Dir (nodes w)\<rparr>"
    by (auto simp: os_mkdir_def is_dir_def split: if_splits option.splits node.splits)
  have keep: "is_dir w q \<Longrightarrow> is_dir w' q" for q
    using absent by (auto simp: w' is_dir_def lookup_def update_conv' split: if_splits)
  have "fst ` set (nodes w') = insert p (fst ` set (nodes w))"
    by (simp add: w' dom_update)
  with assms(2) par keep show ?thesis
    by (auto simp: well_formed_def)
qed

lemma mkdir_exist_ok_well_formed:
  assumes "mkdir_exist_ok w p = (r, w')" and "well_formed w"
  shows "well_formed w'"
  using assms
  by (auto simp: mkdir_exist_ok_def split: sum.splits os_error.splits if_splits
           dest: os_mkdir_well_formed)

lemma mkdir_parents_well_formed:
  "mkdir_parents w p = (r, w') \<Longrightarrow> well_formed w \<Longrightarrow> well_formed w'"
proof (induction w p arbitrary: r w' rule: mkdir_parents.induct)
  case (1 w p)
  show ?case
  proof (cases "os_mkdir w p")
    case (Inr w2)
    with "1.prems" show ?thesis
      by (auto simp: mkdir_parents.simps[of w p] dest: os_mkdir_well_formed)
  next
    case (Inl e)
    show ?thesis
    proof (cases "e = ENOENT \<and> parent p \<noteq> p")
      case False
      with Inl "1.prems" show ?thesis
        by (auto simp: mkdir_parents.simps[of w p] split: if_splits)
    next
      case True
      obtain r1 w1 where rec: "mkdir_parents w (parent p) = (r1, w1)"
        by (cases "mkdir_parents w (parent p)")
      have wf1: "well_formed w1"
        using "1.IH"[OF Inl _ _ rec "1.prems"(2)] True by simp
      show ?thesis
      proof (cases r1)
        case (Some e')
        with Inl True rec "1.prems"(1) wf1 show ?thesis
          by (simp add: mkdir_parents.simps[of w p])
      next
        case None
        with Inl True rec "1.prems"(1) have "mkdir_exist_ok w1 p = (r, w')"
          by (simp add: mkdir_parents.simps[of w p])
        then show ?thesis using wf1 by (rule mkdir_exist_ok_well_formed)
      qed
    qed
  qed
qed

lemma is_dir_in_nodes:
  assumes "is_dir w p" and "p \<noteq> []"
  shows "p \<in> set (map fst (nodes w))"
proof -
  from assms have "map_of (nodes w) p = Some Dir" by (simp add: is_dir_def lookup_def)
  then have "(p, Dir) \<in> set (nodes w)" by (rule map_of_SomeD)
  then show ?thesis by force
qed

lemma well_formed_ancestors:
  assumes "well_formed w"
  shows "is_dir w p \<Longrightarrow> is_dir w (take n p)"
proof (induction p rule: rev_induct)
  case Nil
  then show ?case by simp
next
  case (snoc x xs)
  have "xs @ [x] \<in> set (map fst (nodes w))"
    using snoc.prems by (intro is_dir_in_nodes) auto
  with assms have "is_dir w (parent (xs @ [x]))"
    unfolding well_formed_def by blast
  then have par: "is_dir w xs" by (simp add: parent_def)
  show ?case
  proof (cases "n \<le> length xs")
    case True
    with snoc.IH[OF par] show ?thesis by simp
  next
    case False
    then have "take n (xs @ [x]) = xs @ [x]" by simp
    with snoc.prems show ?thesis by simp
  qed
qed

lemma write_text_fields:
  assumes "write_text w p t = (r, w')"
  shows "denied w' = denied w \<and> unreadable w' = unreadable w
         \<and> calls w' = calls w @ [OpenWrite p]"
  using assms
  by (auto simp: write_text_def Let_def split: option.splits node.splits if_splits)

lemma write_text_written:
  assumes "write_text w p t = (None, w')"
  shows "lookup w' p = Some (File t)"
proof -
  from assms have "\<not> is_dir w p"
    by (auto simp: write_text_def Let_def split: option.splits node.splits if_splits)
  then have "p \<noteq> []" by (auto simp: is_dir_def lookup_def)
  with assms show ?thesis
    by (auto simp: write_text_def Let_def lookup_def update_conv'
             split: option.splits node.splits if_splits)
qed

lemma write_text_keeps:
  assumes "write_text w p t = (r, w')" and "exists w q"
  shows "exists w' q \<and> is_file w' q = is_file w q \<and> is_dir w' q = is_dir w q"
proof (cases "q = p \<and> r = None")
  case False
  with assms show ?thesis
    by (auto simp: write_text_def Let_def lookup_def exists_def is_file_def is_dir_def
                   update_conv'
             split: option.splits node.splits if_splits)
next
  case True
  with assms(1) have written: "lookup w' q = Some (File t)"
    by (auto dest: write_text_written)
  from True assms(1) have "\<not> is_dir w q"
    by (auto simp: write_text_def Let_def split: option.splits node.splits if_splits)
  with assms(2) have "is_file w q"
    by (cases "lookup w q")
       (auto simp: exists_def is_dir_def is_file_def split: node.splits)
  with written \<open>\<not> is_dir w q\<close> show ?thesis
    by (simp add: exists_def is_file_def is_dir_def)
qed

lemma write_transcription_keeps:
  assumes "write_transcription w t img d = (r, w')" and "exists w q"
  shows "exists w' q \<and> is_file w' q = is_file w q \<and> is_dir w' q = is_dir w q"
proof -
  obtain e w2 where wt: "write_text w (joinpath d (stem img @ ''.txt'')) t = (e, w2)"
    by (cases "write_text w (joinpath d (stem img @ ''.txt'')) t")
  with assms(1) have "w' = w2"
    by (auto simp: write_transcription_def Let_def split: option.splits)
  with write_text_keeps[OF wt assms(2)] show ?thesis by simp
qed

lemma write_transcription_result:
  assumes "write_transcription w t img d = (r, w')"
  shows "denied w' = denied w \<and> unreadable w' = unreadable w
         \<and> calls w' = calls w @ [OpenWrite (joinpath d (stem img @ ''.txt''))]
         \<and> (\<forall>p. r = Some p \<longrightarrow>
               p = joinpath d (stem img @ ''.txt'') \<and> lookup w' p = Some (File t))"
proof -
  obtain e w2 where wt: "write_text w (joinpath d (stem img @ ''.txt'')) t = (e, w2)"
    by (cases "write_text w (joinpath d (stem img @ ''.txt'')) t")
  with assms(1) have eq: "w' = w2" and r: "r = (case e of None \<Rightarrow> Some (joinpath d (stem img @ ''.txt'')) | Some x \<Rightarrow> None)"
    by (auto simp: write_transcription_def Let_def split: option.splits)
  from write_text_fields[OF wt] eq have f: "denied w' = denied w \<and> unreadable w' = unreadable w
         \<and> calls w' = calls w @ [OpenWrite (joinpath d (stem img @ ''.txt''))]" by simp
  have "\<forall>p. r = Some p \<longrightarrow>
               p = joinpath d (stem img @ ''.txt'') \<and> lookup w' p = Some (File t)"
  proof (cases e)
    case None
    with wt eq r show ?thesis by (auto dest: write_text_written)
  next
    case (Some x)
    with r show ?thesis by simp
  qed
  with f show ?thesis by simp
qed

lemma mkdir_parents_keeps_kinds:
  assumes "mkdir_parents w d = (e, w1)" and "exists w q"
  shows "exists w1 q \<and> is_file w1 q = is_file w q \<and> is_dir w1 q = is_dir w q"
  using mkdir_parents_keeps[OF assms] assms(2)
  by (simp add: exists_def is_file_def is_dir_def)

lemma save_transcription_keeps:
  assumes "save_transcription w t x od = (r, w')" and "exists w q"
  shows "exists w' q \<and> is_file w' q = is_file w q \<and> is_dir w' q = is_dir w q"
proof (cases x)
  case (PyPath img)
  show ?thesis
  proof (cases od)
    case PyNone
    with PyPath assms(1) have "write_transcription w t img (parent img) = (r, w')"
      by (simp add: save_transcription_def)
    then show ?thesis using assms(2) by (rule write_transcription_keeps)
  next
    case (PyPath d)
    obtain e w1 where mk: "mkdir_parents w d = (e, w1)" by (cases "mkdir_parents w d")
    note k1 = mkdir_parents_keeps_kinds[OF mk assms(2)]
    show ?thesis
    proof (cases e)
      case (Some err)
      with mk \<open>x = PyPath img\<close> PyPath assms(1) have "w' = w1"
        by (simp add: save_transcription_def)
      with k1 show ?thesis by simp
    next
      case None
      with mk \<open>x = PyPath img\<close> PyPath assms(1)
      have "write_transcription w1 t img d = (r, w')"
        by (simp add: save_transcription_def)
      from write_transcription_keeps[OF this] k1 show ?thesis by simp
    qed
  qed (use PyPath assms in \<open>auto simp: save_transcription_def\<close>)
qed (use assms in \<open>auto simp: save_transcription_def\<close>)

lemma save_transcription_success:
  assumes "save_transcription w t (PyPath img) (as_pyval od) = (Some p, w')"
  shows "p = target_path img od \<and> lookup w' p = Some (File t)"
proof (cases od)
  case None
  with assms have "write_transcription w t img (parent img) = (Some p, w')"
    by (simp add: save_transcription_def as_pyval_def)
  from write_transcription_result[OF this] None show ?thesis
    by (auto simp: target_path_def target_dir_def)
next
  case (Some d)
  obtain e w1 where mk: "mkdir_parents w d = (e, w1)" by (cases "mkdir_parents w d")
  with Some assms have "write_transcription w1 t img d = (Some p, w')"
    by (cases e) (auto simp: save_transcription_def as_pyval_def)
  from write_transcription_result[OF this] Some show ?thesis
    by (auto simp: target_path_def target_dir_def)
qed

lemma save_transcription_mkdir_fails:
  assumes "mkdir_parents w d = (Some e, w1)"
  shows "save_transcription w t (PyPath img) (PyPath d) = (None, w1) \<and> calls w1 = calls w"
  using assms mkdir_parents_fields[OF assms] by (simp add: save_transcription_def)

lemma save_transcription_makes_dirs:
  assumes mk: "mkdir_parents w d = (None, w1)" and wf: "well_formed w"
    and sv: "save_transcription w t (PyPath img) (PyPath d) = (r, w')"
  shows "is_dir w' (take n d)"
proof -
  have "is_dir w1 d" using mk by (rule mkdir_parents_is_dir)
  moreover have "well_formed w1" using mk wf by (rule mkdir_parents_well_formed)
  ultimately have "is_dir w1 (take n d)" by (intro well_formed_ancestors)
  then have ex: "exists w1 (take n d)" by (simp add: is_dir_def exists_def)
  from mk sv have "write_transcription w1 t img d = (r, w')"
    by (simp add: save_transcription_def)
  from write_transcription_keeps[OF this ex] \<open>is_dir w1 (take n d)\<close> show ?thesis by simp
qed

lemma save_transcription_calls:
  assumes "save_transcription w t (PyPath img) (as_pyval od) = (r, w')"
  shows "calls w' = calls w \<or> calls w' = calls w @ [OpenWrite (target_path img od)]"
proof (cases od)
  case None
  with assms have "write_transcription w t img (parent img) = (r, w')"
    by (simp add: save_transcription_def as_pyval_def)
  from write_transcription_result[OF this] None show ?thesis
    by (simp add: target_path_def target_dir_def)
next
  case (Some d)
  obtain e w1 where mk: "mkdir_parents w d = (e, w1)" by (cases "mkdir_parents w d")
  note f = mkdir_parents_fields[OF mk]
  show ?thesis
  proof (cases e)
    case (Some err)
    with mk \<open>od = Some d\<close> assms have "w' = w1"
      by (simp add: save_transcription_def as_pyval_def)
    with f show ?thesis by simp
  next
    case None
    with mk \<open>od = Some d\<close> assms have "write_transcription w1 t img d = (r, w')"
      by (simp add: save_transcription_def as_pyval_def)
    from write_transcription_result[OF this] f \<open>od = Some d\<close> show ?thesis
      by (simp add: target_path_def target_dir_def)
  qed
qed

section \<open>The persister\<close>

lemma save_transcription_success_calls:
  assumes "save_transcription w t (PyPath img) (as_pyval od) = (Some p, w')"
  shows "calls w' = calls w @ [OpenWrite (target_path img od)]"
proof (cases od)
  case None
  with assms have "write_transcription w t img (parent img) = (Some p, w')"
    by (simp add: save_transcription_def as_pyval_def)
  from write_transcription_result[OF this] None show ?thesis
    by (auto simp: target_path_def target_dir_def)
next
  case (Some d)
  obtain e w1 where mk: "mkdir_parents w d = (e, w1)" by (cases "mkdir_parents w d")
  with Some assms have "write_transcription w1 t img d = (Some p, w')"
    by (cases e) (auto simp: save_transcription_def as_pyval_def)
  from write_transcription_result[OF this] mkdir_parents_fields[OF mk] Some show ?thesis
    by (auto simp: target_path_def target_dir_def)
qed

text \<open>
  C6. \<open>save_transcription\<close>, called with a text, the path of the image and an optional
  output directory. When it returns a path, the path is the output directory (the one
  given, else the directory of the image) joined with the stem of the image and
  \<^verbatim>\<open>.txt\<close>; the file at that path then holds the text, whatever was there before; and
  the one file opened for writing is that one. When an output directory is given and
  making it does not fail, then after the call the directory and each of its ancestors
  is a directory (in a file system where every entry lies in a directory). When making
  it fails, the result is \<^verbatim>\<open>None\<close> and no file was opened for writing.
\<close>

theorem save_transcription_contract:
  "(fst (save_transcription w t (PyPath img) (as_pyval od)) \<noteq> None \<longrightarrow>
        fst (save_transcription w t (PyPath img) (as_pyval od)) =
          Some (joinpath (case od of Some d \<Rightarrow> d | None \<Rightarrow> parent img) (stem img @ ''.txt''))
      \<and> lookup (snd (save_transcription w t (PyPath img) (as_pyval od)))
           (joinpath (case od of Some d \<Rightarrow> d | None \<Rightarrow> parent img) (stem img @ ''.txt'')) =
          Some (File t)
      \<and> calls (snd (save_transcription w t (PyPath img) (as_pyval od))) =
          calls w @ [OpenWrite (joinpath (case od of Some d \<Rightarrow> d | None \<Rightarrow> parent img)
                                  (stem img @ ''.txt''))])
   \<and> (well_formed w \<and> fst (mkdir_parents w d) = None \<longrightarrow>
        (\<forall>n. is_dir (snd (save_transcription w t (PyPath img) (PyPath d))) (take n d)))
   \<and> (fst (mkdir_parents w d) \<noteq> None \<longrightarrow>
        fst (save_transcription w t (PyPath img) (PyPath d)) = None
      \<and> calls (snd (save_transcription w t (PyPath img) (PyPath d))) = calls w)"
proof (intro conjI impI allI)
  assume ok: "fst (save_transcription w t (PyPath img) (as_pyval od)) \<noteq> None"
  then obtain p w' where sv: "save_transcription w t (PyPath img) (as_pyval od) = (Some p, w')"
    by (cases "save_transcription w t (PyPath img) (as_pyval od)") auto
  from save_transcription_success[OF sv]
  have p: "p = joinpath (case od of Some d \<Rightarrow> d | None \<Rightarrow> parent img) (stem img @ ''.txt'')"
    by (auto simp: target_path_def target_dir_def)
  from save_transcription_success[OF sv] have l: "lookup w' p = Some (File t)"
    by blast
  from save_transcription_success_calls[OF sv]
  have c: "calls w' = calls w @ [OpenWrite p]"
    by (simp add: p target_path_def target_dir_def)
  from sv p show "fst (save_transcription w t (PyPath img) (as_pyval od)) =
          Some (joinpath (case od of Some d \<Rightarrow> d | None \<Rightarrow> parent img) (stem img @ ''.txt''))"
    by simp
  from sv p l show "lookup (snd (save_transcription w t (PyPath img) (as_pyval od)))
           (joinpath (case od of Some d \<Rightarrow> d | None \<Rightarrow> parent img) (stem img @ ''.txt'')) =
          Some (File t)"
    by simp
  from sv p c show "calls (snd (save_transcription w t (PyPath img) (as_pyval od))) =
          calls w @ [OpenWrite (joinpath (case od of Some d \<Rightarrow> d | None \<Rightarrow> parent img)
                                  (stem img @ ''.txt''))]"
    by simp
next
  fix n
  assume a: "well_formed w \<and> fst (mkdir_parents w d) = None"
  then have mk: "mkdir_parents w d = (None, snd (mkdir_parents w d))"
    by (cases "mkdir_parents w d") simp
  have sv: "save_transcription w t (PyPath img) (PyPath d) =
              (fst (save_transcription w t (PyPath img) (PyPath d)),
               snd (save_transcription w t (PyPath img) (PyPath d)))"
    by simp
  from a have wf: "well_formed w" by simp
  show "is_dir (snd (save_transcription w t (PyPath img) (PyPath d))) (take n d)"
    by (rule save_transcription_makes_dirs[OF mk wf sv])
next
  assume "fst (mkdir_parents w d) \<noteq> None"
  then obtain e w1 where mk: "mkdir_parents w d = (Some e, w1)"
    by (cases "mkdir_parents w d") auto
  from save_transcription_mkdir_fails[OF mk]
  show "fst (save_transcription w t (PyPath img) (PyPath d)) = None"
    and "calls (snd (save_transcription w t (PyPath img) (PyPath d))) = calls w"
    by simp_all
qed

theorem save_transcription_contract_witness:
  "lookup example_world [''out'', ''photo.txt''] = Some (File ''old text'')
   \<and> fst (save_transcription example_world ''Dear Sir'' (PyPath [''docs'', ''photo.jpg''])
            (as_pyval (Some [''out'']))) = Some [''out'', ''photo.txt'']
   \<and> lookup (snd (save_transcription example_world ''Dear Sir'' (PyPath [''docs'', ''photo.jpg''])
            (as_pyval (Some [''out''])))) [''out'', ''photo.txt''] = Some (File ''Dear Sir'')
   \<and> well_formed example_world
   \<and> \<not> exists example_world [''new'']
   \<and> fst (mkdir_parents example_world [''new'', ''deep'']) = None
   \<and> is_dir (snd (save_transcription example_world ''Dear Sir'' (PyPath [''docs'', ''photo.jpg''])
            (PyPath [''new'', ''deep'']))) [''new'']
   \<and> is_dir (snd (save_transcription example_world ''Dear Sir'' (PyPath [''docs'', ''photo.jpg''])
            (PyPath [''new'', ''deep'']))) [''new'', ''deep'']
   \<and> fst (mkdir_parents example_world [''restricted'', ''sub'']) \<noteq> None
   \<and> fst (save_transcription example_world ''Dear Sir'' (PyPath [''docs'', ''photo.jpg''])
            (PyPath [''restricted'', ''sub''])) = None
   \<and> calls (snd (save_transcription example_world ''Dear Sir'' (PyPath [''docs'', ''photo.jpg''])
            (PyPath [''restricted'', ''sub'']))) = calls example_world"
proof -
  have old: "lookup example_world [''out'', ''photo.txt''] = Some (File ''old text'')"
    by code_simp
  have h1: "fst (save_transcription example_world ''Dear Sir'' (PyPath [''docs'', ''photo.jpg''])
            (as_pyval (Some [''out'']))) \<noteq> None"
    by code_simp
  have tp: "joinpath (case Some [''out''] of Some d \<Rightarrow> d | None \<Rightarrow> parent [''docs'', ''photo.jpg''])
              (stem [''docs'', ''photo.jpg''] @ ''.txt'') = [''out'', ''photo.txt'']"
    by code_simp
  have h2: "well_formed example_world \<and> fst (mkdir_parents example_world [''new'', ''deep'']) = None"
    by code_simp
  have new: "\<not> exists example_world [''new'']"
    by code_simp
  have h3: "fst (mkdir_parents example_world [''restricted'', ''sub'']) \<noteq> None"
    by code_simp
  note a = save_transcription_contract
             [of example_world "''Dear Sir''" "[''docs'', ''photo.jpg'']" "Some [''out'']"
                 "[''new'', ''deep'']"]
  note b = save_transcription_contract
             [of example_world "''Dear Sir''" "[''docs'', ''photo.jpg'']" "Some [''out'']"
                 "[''restricted'', ''sub'']"]
  from a h1 tp
  have c1: "fst (save_transcription example_world ''Dear Sir'' (PyPath [''docs'', ''photo.jpg''])
            (as_pyval (Some [''out'']))) = Some [''out'', ''photo.txt'']"
    and c2: "lookup (snd (save_transcription example_world ''Dear Sir'' (PyPath [''docs'', ''photo.jpg''])
            (as_pyval (Some [''out''])))) [''out'', ''photo.txt''] = Some (File ''Dear Sir'')"
    by simp_all
  from a h2
  have dirs: "\<forall>n. is_dir (snd (save_transcription example_world ''Dear Sir''
                 (PyPath [''docs'', ''photo.jpg'']) (PyPath [''new'', ''deep''])))
               (take n [''new'', ''deep''])"
    by blast
  from dirs[rule_format, of 1] dirs[rule_format, of 2]
  have c3: "is_dir (snd (save_transcription example_world ''Dear Sir'' (PyPath [''docs'', ''photo.jpg''])
            (PyPath [''new'', ''deep'']))) [''new'']"
    and c4: "is_dir (snd (save_transcription example_world ''Dear Sir'' (PyPath [''docs'', ''photo.jpg''])
            (PyPath [''new'', ''deep'']))) [''new'', ''deep'']"
    by simp_all
  from b h3
  have c5: "fst (save_transcription example_world ''Dear Sir'' (PyPath [''docs'', ''photo.jpg''])
            (PyPath [''restricted'', ''sub''])) = None
   \<and> calls (snd (save_transcription example_world ''Dear Sir'' (PyPath [''docs'', ''photo.jpg''])
            (PyPath [''restricted'', ''sub'']))) = calls example_world"
    by blast
  from old c1 c2 h2 new c3 c4 h3 c5 show ?thesis by blast
qed

section \<open>The validator\<close>


section \<open>Arguments that are not paths\<close>

text \<open>
  C10. An argument that is not a \<^verbatim>\<open>Path\<close> makes each function of \<^verbatim>\<open>file_handler.py\<close>
  return its failure value, with the file system untouched: \<open>validate_image_file\<close>
  returns false, \<open>save_transcription\<close> returns \<^verbatim>\<open>None\<close> for such an image path, and for
  such an output directory (\<^verbatim>\<open>None\<close> apart, which stands for no directory given), and
  \<open>load_prompt_file\<close> returns \<^verbatim>\<open>None\<close>.
\<close>

theorem wrong_type_arguments_fail:
  "((\<forall>p. x \<noteq> PyPath p) \<longrightarrow>
      validate_image_file w x = False
    \<and> save_transcription w t x od = (None, w)
    \<and> load_prompt_file w x = None)
   \<and> ((\<forall>p. od \<noteq> PyPath p) \<and> od \<noteq> PyNone \<longrightarrow>
      save_transcription w t (PyPath img) od = (None, w))"
  by (cases x; cases od;
      simp add: validate_image_file_def save_transcription_def load_prompt_file_def)

theorem wrong_type_arguments_fail_witness:
  "validate_image_file \<lparr>nodes = [], denied = [], unreadable = [], calls = []\<rparr>
       (PyStr ''not_a_path_object.jpg'') = False
   \<and> fst (save_transcription \<lparr>nodes = [], denied = [], unreadable = [], calls = []\<rparr>
       ''text'' (PyStr ''not_a_path.jpg'') PyNone) = None
   \<and> load_prompt_file \<lparr>nodes = [], denied = [], unreadable = [], calls = []\<rparr>
       (PyStr ''not_a_path.txt'') = None
   \<and> fst (save_transcription \<lparr>nodes = [], denied = [], unreadable = [], calls = []\<rparr>
       ''text'' (PyPath [''dummy_input'', ''image.jpg'']) (PyStr ''not_a_path'')) = None"
  using wrong_type_arguments_fail
          [of "PyStr ''not_a_path_object.jpg''"
              "\<lparr>nodes = [], denied = [], unreadable = [], calls = []\<rparr>" "''text''" PyNone]
        wrong_type_arguments_fail
          [of "PyStr ''not_a_path.jpg''"
              "\<lparr>nodes = [], denied = [], unreadable = [], calls = []\<rparr>" "''text''" PyNone]
        wrong_type_arguments_fail
          [of "PyStr ''not_a_path.txt''"
              "\<lparr>nodes = [], denied = [], unreadable = [], calls = []\<rparr>" "''text''" PyNone]
        wrong_type_arguments_fail
          [of "PyStr ''x''"
              "\<lparr>nodes = [], denied = [], unreadable = [], calls = []\<rparr>" "''text''"
              "PyStr ''not_a_path''" "[''dummy_input'', ''image.jpg'']"]
  by simp

section \<open>The routing\<close>

text \<open>
  C1. The top label the classifier reads (lower-cased) and its score decide the backend:
  the label \<^verbatim>\<open>handwritten\<close> with a score of at least the threshold 0.5 selects the local
  recognizer, and every other label, and every score below the threshold, selects the
  cloud transcriber. The second part says the same of \<open>process_single_image\<close>'s choice
  for an image whose first prediction has that label and score.
\<close>

theorem routing_table:
  "MIN_CONFIDENCE_SCORE = 1 / 2
   \<and> select_backend (effective_image_type (Some (map_top_label top_label top_score))) =
       (if top_label = ''handwritten'' \<and> MIN_CONFIDENCE_SCORE \<le> top_score
        then LocalRecognizer else CloudTranscriber)
   \<and> (classifier_initialized env
        \<and> dit_pipeline env image_path = Predictions (Prediction label score # rest) \<longrightarrow>
       selected_backend env image_path =
         (if lower label = ''handwritten'' \<and> MIN_CONFIDENCE_SCORE \<le> score
          then LocalRecognizer else CloudTranscriber))"
proof -
  have table: "select_backend (effective_image_type (Some (map_top_label l s))) =
       (if l = ''handwritten'' \<and> MIN_CONFIDENCE_SCORE \<le> s
        then LocalRecognizer else CloudTranscriber)" for l s
    by (simp add: select_backend_def effective_image_type_def map_top_label_def)
  have "selected_backend env image_path =
          select_backend (effective_image_type (Some (map_top_label (lower label) score)))"
    if "classifier_initialized env"
      and "dit_pipeline env image_path = Predictions (Prediction label score # rest)"
    using that by (simp add: selected_backend_def classify_text_type_local_def)
  with table show ?thesis
    by (simp add: MIN_CONFIDENCE_SCORE_def)
qed

theorem routing_table_witness:
  "classifier_initialized example_env
   \<and> dit_pipeline example_env [''docs'', ''photo.jpg''] =
       Predictions [Prediction ''handwritten'' (92 / 100), Prediction ''letter'' (5 / 100)]
   \<and> selected_backend example_env [''docs'', ''photo.jpg''] = LocalRecognizer
   \<and> dit_pipeline example_env [''docs'', ''form.jpg''] = Predictions [Prediction ''form'' (8 / 10)]
   \<and> selected_backend example_env [''docs'', ''form.jpg''] = CloudTranscriber
   \<and> dit_pipeline example_env [''docs'', ''blurry.JPG''] =
       Predictions [Prediction ''handwritten'' (2 / 10)]
   \<and> selected_backend example_env [''docs'', ''blurry.JPG''] = CloudTranscriber"
proof -
  have init: "classifier_initialized example_env"
    by (simp add: example_env_def)
  have p1: "dit_pipeline example_env [''docs'', ''photo.jpg''] =
       Predictions [Prediction ''handwritten'' (92 / 100), Prediction ''letter'' (5 / 100)]"
    and p2: "dit_pipeline example_env [''docs'', ''form.jpg''] =
       Predictions [Prediction ''form'' (8 / 10)]"
    and p3: "dit_pipeline example_env [''docs'', ''blurry.JPG''] =
       Predictions [Prediction ''handwritten'' (2 / 10)]"
    by (simp_all add: example_env_def)
  have l1: "lower ''handwritten'' = ''handwritten''" and l2: "lower ''form'' = ''form''"
    by (simp_all add: lower_def lower_char_def lower_table_def)
  from routing_table[of "''x''" 0 example_env "[''docs'', ''photo.jpg'']" "''handwritten''"
                        "92 / 100" "[Prediction ''letter'' (5 / 100)]"] init p1 l1
  have c1: "selected_backend example_env [''docs'', ''photo.jpg''] = LocalRecognizer"
    by (simp add: MIN_CONFIDENCE_SCORE_def)
  from routing_table[of "''x''" 0 example_env "[''docs'', ''form.jpg'']" "''form''"
                        "8 / 10" "[]"] init p2 l2
  have c2: "selected_backend example_env [''docs'', ''form.jpg''] = CloudTranscriber"
    by (simp add: MIN_CONFIDENCE_SCORE_def)
  from routing_table[of "''x''" 0 example_env "[''docs'', ''blurry.JPG'']" "''handwritten''"
                        "2 / 10" "[]"] init p3 l1
  have c3: "selected_backend example_env [''docs'', ''blurry.JPG''] = CloudTranscriber"
    by (simp add: MIN_CONFIDENCE_SCORE_def)
  from init p1 p2 p3 c1 c2 c3 show ?thesis by blast
qed

section \<open>The item processor\<close>

lemma lookup_calls [simp]: "lookup (w\<lparr>calls := c\<rparr>) p = lookup w p"
  by (simp add: lookup_def)

lemma is_file_calls [simp]: "is_file (w\<lparr>calls := c\<rparr>) p = is_file w p"
  by (simp add: is_file_def)

lemma is_dir_calls [simp]: "is_dir (w\<lparr>calls := c\<rparr>) p = is_dir w p"
  by (simp add: is_dir_def)

lemma exists_calls [simp]: "exists (w\<lparr>calls := c\<rparr>) p = exists w p"
  by (simp add: exists_def)

lemma get_transcription_from_llm_calls [simp]:
  "get_transcription_from_llm env (w\<lparr>calls := c\<rparr>) p t = get_transcription_from_llm env w p t"
  by (simp add: get_transcription_from_llm_def image_to_base64_def)

lemma os_mkdir_calls:
  "os_mkdir (w\<lparr>calls := c\<rparr>) p =
     (case os_mkdir w p of Inl e \<Rightarrow> Inl e | Inr w' \<Rightarrow> Inr (w'\<lparr>calls := c\<rparr>))"
  by (simp add: os_mkdir_def split: option.splits node.splits)

lemma mkdir_exist_ok_calls:
  "mkdir_exist_ok (w\<lparr>calls := c\<rparr>) p =
     (case mkdir_exist_ok w p of (e, w') \<Rightarrow> (e, w'\<lparr>calls := c\<rparr>))"
  by (simp add: mkdir_exist_ok_def os_mkdir_calls split: sum.splits os_error.splits)

lemma mkdir_parents_calls:
  "mkdir_parents (w\<lparr>calls := c\<rparr>) p =
     (case mkdir_parents w p of (e, w') \<Rightarrow> (e, w'\<lparr>calls := c\<rparr>))"
proof (induction w p rule: mkdir_parents.induct)
  case (1 w p)
  show ?case
  proof (cases "os_mkdir w p")
    case (Inr w2)
    then show ?thesis
      by (simp add: mkdir_parents.simps[of w p] mkdir_parents.simps[of "w\<lparr>calls := c\<rparr>" p]
                    os_mkdir_calls)
  next
    case (Inl e)
    show ?thesis
    proof (cases "e = ENOENT \<and> parent p \<noteq> p")
      case False
      with Inl show ?thesis
        by (auto simp: mkdir_parents.simps[of w p] mkdir_parents.simps[of "w\<lparr>calls := c\<rparr>" p]
                       os_mkdir_calls)
    next
      case True
      with "1.IH"[OF Inl] have ih: "mkdir_parents (w\<lparr>calls := c\<rparr>) (parent p) =
          (case mkdir_parents w (parent p) of (e, w') \<Rightarrow> (e, w'\<lparr>calls := c\<rparr>))"
        by simp
      obtain r1 w1 where rec: "mkdir_parents w (parent p) = (r1, w1)"
        by (cases "mkdir_parents w (parent p)")
      with Inl True ih show ?thesis
        by (cases r1)
           (simp_all add: mkdir_parents.simps[of w p]
                          mkdir_parents.simps[of "w\<lparr>calls := c\<rparr>" p]
                          os_mkdir_calls mkdir_exist_ok_calls)
    qed
  qed
qed

lemma write_text_calls:
  "fst (write_text (w\<lparr>calls := c\<rparr>) p t) = fst (write_text w p t)"
  by (simp add: write_text_def Let_def split: option.splits node.splits)

lemma write_transcription_calls:
  "fst (write_transcription (w\<lparr>calls := c\<rparr>) t img d) = fst (write_transcription w t img d)"
proof -
  have "fst (write_transcription w' t img d) =
          (case fst (write_text w' (joinpath d (stem img @ ''.txt'')) t) of
             None \<Rightarrow> Some (joinpath d (stem img @ ''.txt''))
           | Some e \<Rightarrow> None)" for w'
    by (simp add: write_transcription_def Let_def split: prod.splits option.splits)
  then show ?thesis by (simp add: write_text_calls)
qed

lemma save_transcription_calls_fst:
  "fst (save_transcription (w\<lparr>calls := c\<rparr>) t x od) = fst (save_transcription w t x od)"
proof (cases x)
  case (PyPath img)
  show ?thesis
  proof (cases od)
    case (PyPath d)
    obtain e w1 where mk: "mkdir_parents w d = (e, w1)" by (cases "mkdir_parents w d")
    then have mk': "mkdir_parents (w\<lparr>calls := c\<rparr>) d = (e, w1\<lparr>calls := c\<rparr>)"
      by (simp add: mkdir_parents_calls)
    from mk mk' \<open>x = PyPath img\<close> PyPath show ?thesis
      by (cases e) (simp_all add: save_transcription_def write_transcription_calls)
  qed (simp_all add: PyPath save_transcription_def write_transcription_calls)
qed (simp_all add: save_transcription_def)

lemma save_result_fst:
  "fst (save_result w t img od) = (fst (save_transcription w t (PyPath img) (as_pyval od)) \<noteq> None)"
  by (simp add: save_result_def split: prod.splits option.splits)

lemma process_single_image_invalid:
  "\<not> validate_image_file w (PyPath img) \<Longrightarrow> process_single_image env w img prompt od = (False, w)"
  by (simp add: process_single_image_def)

lemma process_single_image_local:
  assumes "validate_image_file w (PyPath img)" and "selected_backend env img = LocalRecognizer"
  shows "process_single_image env w img prompt od =
           (case get_transcription_from_local_ocr env img of
              None \<Rightarrow> (False, w\<lparr>calls := calls w @ [Classify img, LocalOCR img]\<rparr>)
            | Some t \<Rightarrow>
                save_result (w\<lparr>calls := calls w @ [Classify img, LocalOCR img]\<rparr>) t img od)"
  using assms
  by (simp add: process_single_image_def selected_backend_def Let_def split: option.splits)

lemma process_single_image_cloud:
  assumes "validate_image_file w (PyPath img)" and "selected_backend env img = CloudTranscriber"
  shows "process_single_image env w img prompt od =
           (if \<not> OPENAI_API_CONFIGURED env then (False, w\<lparr>calls := calls w @ [Classify img]\<rparr>)
            else case get_transcription_from_llm env w img prompt of
              None \<Rightarrow> (False, w\<lparr>calls := calls w @ [Classify img, CloudLLM img prompt]\<rparr>)
            | Some t \<Rightarrow>
                save_result (w\<lparr>calls := calls w @ [Classify img, CloudLLM img prompt]\<rparr>)
                  t img od)"
  using assms
  by (simp add: process_single_image_def selected_backend_def Let_def split: option.splits)

text \<open>
  C3. An item is sent to the local recognizer exactly when its effective label is
  \<^verbatim>\<open>handwritten\<close>. If the image is valid, goes to the local recognizer, and the local
  recognition returns \<^verbatim>\<open>None\<close>, then \<open>process_single_image\<close> returns false at once: the
  only calls it made are the classification and the local recognition (no call of the
  cloud transcriber, no file opened), and the file system is as it was.
\<close>

theorem local_failure_is_final:
  "(selected_backend env img = LocalRecognizer) =
     (effective_image_type (fst (classify_text_type_local env img)) = ''handwritten'')
   \<and> (validate_image_file w (PyPath img)
        \<and> selected_backend env img = LocalRecognizer
        \<and> get_transcription_from_local_ocr env img = None \<longrightarrow>
      process_single_image env w img prompt od =
        (False, w\<lparr>calls := calls w @ [Classify img, LocalOCR img]\<rparr>))"
proof -
  have "(selected_backend env img = LocalRecognizer) =
     (effective_image_type (fst (classify_text_type_local env img)) = ''handwritten'')"
    by (simp add: selected_backend_def select_backend_def)
  moreover have "process_single_image env w img prompt od =
        (False, w\<lparr>calls := calls w @ [Classify img, LocalOCR img]\<rparr>)"
    if "validate_image_file w (PyPath img)" and "selected_backend env img = LocalRecognizer"
      and "get_transcription_from_local_ocr env img = None"
    using process_single_image_local[OF that(1,2)] that(3) by simp
  ultimately show ?thesis by blast
qed

theorem local_failure_is_final_witness:
  "validate_image_file example_world (PyPath [''docs'', ''report.jpg''])
   \<and> selected_backend example_env [''docs'', ''report.jpg''] = LocalRecognizer
   \<and> get_transcription_from_local_ocr example_env [''docs'', ''report.jpg''] = None
   \<and> OPENAI_API_CONFIGURED example_env
   \<and> process_single_image example_env example_world [''docs'', ''report.jpg'']
        ''Transcribe this.'' (Some [''out'']) =
      (False, example_world
         \<lparr>calls := calls example_world
            @ [Classify [''docs'', ''report.jpg''], LocalOCR [''docs'', ''report.jpg'']]\<rparr>)"
proof -
  have h1: "validate_image_file example_world (PyPath [''docs'', ''report.jpg''])"
    by code_simp
  have h2: "selected_backend example_env [''docs'', ''report.jpg''] = LocalRecognizer"
    by code_simp
  have h3: "get_transcription_from_local_ocr example_env [''docs'', ''report.jpg''] = None"
    by code_simp
  have h4: "OPENAI_API_CONFIGURED example_env"
    by (simp add: example_env_def)
  from local_failure_is_final
         [of example_env "[''docs'', ''report.jpg'']" example_world "''Transcribe this.''"
             "Some [''out'']"]
       h1 h2 h3 h4
  show ?thesis by blast
qed

text \<open>
  C4. When the classifier fails (its primary classification is \<^verbatim>\<open>None\<close>) for a valid
  image, the effective label is \<^verbatim>\<open>undetermined\<close> and the item goes to the cloud
  transcriber; the local recognizer is not called. The failure alone does not fail the
  item: \<open>process_single_image\<close> returns true exactly when the cloud backend is
  configured, the cloud transcription returns a text, and saving that text succeeds.
\<close>

theorem classifier_failure_goes_to_cloud:
  "validate_image_file w (PyPath img) \<and> fst (classify_text_type_local env img) = None \<longrightarrow>
      effective_image_type (fst (classify_text_type_local env img)) = ''undetermined''
    \<and> selected_backend env img = CloudTranscriber
    \<and> fst (process_single_image env w img prompt od) =
        (OPENAI_API_CONFIGURED env
         \<and> (\<exists>t. get_transcription_from_llm env w img prompt = Some t
                \<and> fst (save_transcription w t (PyPath img) (as_pyval od)) \<noteq> None))
    \<and> LocalOCR img \<notin> set (drop (length (calls w))
                              (calls (snd (process_single_image env w img prompt od))))"
proof (intro impI)
  assume a: "validate_image_file w (PyPath img) \<and> fst (classify_text_type_local env img) = None"
  then have v: "validate_image_file w (PyPath img)" by simp
  from a have eff: "effective_image_type (fst (classify_text_type_local env img)) = ''undetermined''"
    by (simp add: effective_image_type_def)
  then have sel: "selected_backend env img = CloudTranscriber"
    by (simp add: selected_backend_def select_backend_def)
  note run = process_single_image_cloud[OF v sel, of prompt od]
  have res: "fst (process_single_image env w img prompt od) =
        (OPENAI_API_CONFIGURED env
         \<and> (\<exists>t. get_transcription_from_llm env w img prompt = Some t
                \<and> fst (save_transcription w t (PyPath img) (as_pyval od)) \<noteq> None))"
    unfolding run
    by (cases "get_transcription_from_llm env w img prompt")
       (simp_all add: save_result_fst save_transcription_calls_fst)
  have log: "LocalOCR img \<notin> set (drop (length (calls w))
                              (calls (snd (process_single_image env w img prompt od))))"
  proof (cases "OPENAI_API_CONFIGURED env")
    case False
    with run show ?thesis by simp
  next
    case True
    show ?thesis
    proof (cases "get_transcription_from_llm env w img prompt")
      case None
      with True run show ?thesis by simp
    next
      case (Some t)
      let ?w2 = "w\<lparr>calls := calls w @ [Classify img, CloudLLM img prompt]\<rparr>"
      obtain r w' where sv: "save_transcription ?w2 t (PyPath img) (as_pyval od) = (r, w')"
        by (cases "save_transcription ?w2 t (PyPath img) (as_pyval od)")
      from save_transcription_calls[OF sv]
      have "calls w' = calls ?w2 \<or> calls w' = calls ?w2 @ [OpenWrite (target_path img od)]" .
      moreover from True Some run sv have "snd (process_single_image env w img prompt od) = w'"
        by (simp add: save_result_def split: option.splits)
      ultimately show ?thesis by auto
    qed
  qed
  from eff sel res log
  show "effective_image_type (fst (classify_text_type_local env img)) = ''undetermined''
    \<and> selected_backend env img = CloudTranscriber
    \<and> fst (process_single_image env w img prompt od) =
        (OPENAI_API_CONFIGURED env
         \<and> (\<exists>t. get_transcription_from_llm env w img prompt = Some t
                \<and> fst (save_transcription w t (PyPath img) (as_pyval od)) \<noteq> None))
    \<and> LocalOCR img \<notin> set (drop (length (calls w))
                              (calls (snd (process_single_image env w img prompt od))))"
    by blast
qed

theorem classifier_failure_goes_to_cloud_witness:
  "validate_image_file example_world (PyPath [''docs'', ''photo.jpg''])
   \<and> fst (classify_text_type_local (example_env\<lparr>classifier_initialized := False\<rparr>)
           [''docs'', ''photo.jpg'']) = None
   \<and> selected_backend (example_env\<lparr>classifier_initialized := False\<rparr>) [''docs'', ''photo.jpg'']
       = CloudTranscriber
   \<and> get_transcription_from_llm (example_env\<lparr>classifier_initialized := False\<rparr>) example_world
       [''docs'', ''photo.jpg''] ''Transcribe this.'' = Some ''Invoice #221''
   \<and> fst (process_single_image (example_env\<lparr>classifier_initialized := False\<rparr>) example_world
           [''docs'', ''photo.jpg''] ''Transcribe this.'' None)"
proof -
  let ?env = "example_env\<lparr>classifier_initialized := False\<rparr>"
  have h1: "validate_image_file example_world (PyPath [''docs'', ''photo.jpg''])"
    by code_simp
  have h2: "fst (classify_text_type_local ?env [''docs'', ''photo.jpg'']) = None"
    by code_simp
  have h3: "OPENAI_API_CONFIGURED ?env"
    by (simp add: example_env_def)
  have h4: "get_transcription_from_llm ?env example_world
       [''docs'', ''photo.jpg''] ''Transcribe this.'' = Some ''Invoice #221''"
    by code_simp
  have h5: "fst (save_transcription example_world ''Invoice #221''
                  (PyPath [''docs'', ''photo.jpg'']) (as_pyval None)) \<noteq> None"
    by code_simp
  from classifier_failure_goes_to_cloud
         [of example_world "[''docs'', ''photo.jpg'']" ?env "''Transcribe this.''" None]
       h1 h2
  have sel: "selected_backend ?env [''docs'', ''photo.jpg''] = CloudTranscriber"
    and res: "fst (process_single_image ?env example_world [''docs'', ''photo.jpg'']
                     ''Transcribe this.'' None) =
        (OPENAI_API_CONFIGURED ?env
         \<and> (\<exists>t. get_transcription_from_llm ?env example_world [''docs'', ''photo.jpg'']
                    ''Transcribe this.'' = Some t
                \<and> fst (save_transcription example_world t (PyPath [''docs'', ''photo.jpg''])
                         (as_pyval None)) \<noteq> None))"
    by blast+
  from res h3 h4 h5
  have "fst (process_single_image ?env example_world [''docs'', ''photo.jpg'']
                     ''Transcribe this.'' None)"
    by simp
  with h1 h2 sel h4 show ?thesis by blast
qed

text \<open>
  C5. If a valid image goes to the cloud transcriber and the cloud backend is not
  configured (the flag \<open>OPENAI_API_CONFIGURED\<close> is false), \<open>process_single_image\<close>
  returns false: the classification is the only call it made, so no transcription was
  attempted, and nothing was tried again, even where a new configuration would succeed.
  The item fails as well when the flag is set but the client of \<^verbatim>\<open>llm_handler.py\<close> is
  not configured and cannot be: \<open>get_transcription_from_llm\<close> then returns \<^verbatim>\<open>None\<close>.
\<close>

theorem cloud_not_configured_fails:
  "(validate_image_file w (PyPath img)
    \<and> selected_backend env img = CloudTranscriber
    \<and> \<not> OPENAI_API_CONFIGURED env \<longrightarrow>
     process_single_image env w img prompt od =
       (False, w\<lparr>calls := calls w @ [Classify img]\<rparr>))
   \<and> (validate_image_file w (PyPath img)
       \<and> selected_backend env img = CloudTranscriber
       \<and> \<not> client_configured env \<and> \<not> configure_openai_api env \<longrightarrow>
     \<not> fst (process_single_image env w img prompt od))"
proof (intro conjI impI)
  assume a: "validate_image_file w (PyPath img)
   \<and> selected_backend env img = CloudTranscriber \<and> \<not> OPENAI_API_CONFIGURED env"
  then have "validate_image_file w (PyPath img)" and "selected_backend env img = CloudTranscriber"
    by simp_all
  from process_single_image_cloud[OF this, of prompt od] a
  show "process_single_image env w img prompt od =
       (False, w\<lparr>calls := calls w @ [Classify img]\<rparr>)"
    by simp
next
  assume a: "validate_image_file w (PyPath img)
       \<and> selected_backend env img = CloudTranscriber
       \<and> \<not> client_configured env \<and> \<not> configure_openai_api env"
  then have "validate_image_file w (PyPath img)" and "selected_backend env img = CloudTranscriber"
    by simp_all
  note run = process_single_image_cloud[OF this, of prompt od]
  from a have "get_transcription_from_llm env w img prompt = None"
    by (simp add: get_transcription_from_llm_def)
  with run show "\<not> fst (process_single_image env w img prompt od)"
    by simp
qed

theorem cloud_not_configured_fails_witness:
  "validate_image_file example_world (PyPath [''docs'', ''form.jpg''])
   \<and> selected_backend (example_env\<lparr>OPENAI_API_CONFIGURED := False\<rparr>) [''docs'', ''form.jpg'']
       = CloudTranscriber
   \<and> \<not> OPENAI_API_CONFIGURED (example_env\<lparr>OPENAI_API_CONFIGURED := False\<rparr>)
   \<and> configure_openai_api (example_env\<lparr>OPENAI_API_CONFIGURED := False\<rparr>)
   \<and> process_single_image (example_env\<lparr>OPENAI_API_CONFIGURED := False\<rparr>) example_world
        [''docs'', ''form.jpg''] ''Transcribe this.'' (Some [''out'']) =
      (False, example_world\<lparr>calls := calls example_world @ [Classify [''docs'', ''form.jpg'']]\<rparr>)
   \<and> \<not> client_configured (example_env\<lparr>client_configured := False, configure_openai_api := False\<rparr>)
   \<and> \<not> configure_openai_api
         (example_env\<lparr>client_configured := False, configure_openai_api := False\<rparr>)
   \<and> \<not> fst (process_single_image
               (example_env\<lparr>client_configured := False, configure_openai_api := False\<rparr>)
               example_world [''docs'', ''form.jpg''] ''Transcribe this.'' (Some [''out'']))"
proof -
  let ?env = "example_env\<lparr>OPENAI_API_CONFIGURED := False\<rparr>"
  let ?env2 = "example_env\<lparr>client_configured := False, configure_openai_api := False\<rparr>"
  have g2: "selected_backend ?env2 [''docs'', ''form.jpg''] = CloudTranscriber"
    by code_simp
  have g3: "\<not> client_configured ?env2" and g4: "\<not> configure_openai_api ?env2"
    by (simp_all add: example_env_def)
  have h1: "validate_image_file example_world (PyPath [''docs'', ''form.jpg''])"
    by code_simp
  have h2: "selected_backend ?env [''docs'', ''form.jpg''] = CloudTranscriber"
    by code_simp
  have h3: "\<not> OPENAI_API_CONFIGURED ?env" and h4: "configure_openai_api ?env"
    by (simp_all add: example_env_def)
  from cloud_not_configured_fails
         [of example_world "[''docs'', ''form.jpg'']" ?env "''Transcribe this.''" "Some [''out'']"]
       h1 h2 h3
  have c1: "process_single_image ?env example_world
        [''docs'', ''form.jpg''] ''Transcribe this.'' (Some [''out'']) =
      (False, example_world\<lparr>calls := calls example_world @ [Classify [''docs'', ''form.jpg'']]\<rparr>)"
    by blast
  from cloud_not_configured_fails
         [of example_world "[''docs'', ''form.jpg'']" ?env2 "''Transcribe this.''" "Some [''out'']"]
       h1 g2 g3 g4
  have c2: "\<not> fst (process_single_image ?env2 example_world [''docs'', ''form.jpg'']
                     ''Transcribe this.'' (Some [''out'']))"
    by blast
  from h1 h2 h3 h4 c1 g3 g4 c2 show ?thesis by blast
qed

lemma validate_supported:
  "validate_image_file w (PyPath img) \<Longrightarrow> supported img \<and> is_file w img"
  by (auto simp: validate_image_file_def supported_def split: if_splits)

lemma stem_target_path:
  assumes "supported img"
  shows "stem (target_path img od) = stem img"
  using supported_stem_nonempty[OF assms]
  by (simp add: target_path_def stem_joinpath_txt)

lemma save_result_success:
  assumes "save_result w t img od = (True, w')"
  shows "lookup w' (target_path img od) = Some (File t)"
proof -
  from assms obtain p where "save_transcription w t (PyPath img) (as_pyval od) = (Some p, w')"
    by (auto simp: save_result_def split: prod.splits option.splits)
  from save_transcription_success[OF this] show ?thesis by auto
qed

text \<open>
  C7. When \<open>process_single_image\<close> returns true, the selected backend returned a text,
  and the file at the output path (the output directory joined with the stem of the
  image and \<^verbatim>\<open>.txt\<close>) holds exactly that text; the stem of the output path is the stem
  of the image. The file system stores the text of a file: what \<^verbatim>\<open>write\<close> was given is
  what the file holds.
\<close>

theorem successful_item_output:
  "fst (process_single_image env w img prompt od) \<longrightarrow>
     (\<exists>t. backend_text env w img prompt = Some t
         \<and> lookup (snd (process_single_image env w img prompt od)) (target_path img od) =
             Some (File t))
     \<and> target_path img od = joinpath (target_dir img od) (stem img @ ''.txt'')
     \<and> stem (target_path img od) = stem img"
proof (intro impI)
  assume ok: "fst (process_single_image env w img prompt od)"
  then have v: "validate_image_file w (PyPath img)"
    by (auto simp: process_single_image_def split: if_splits)
  obtain w' where run: "process_single_image env w img prompt od = (True, w')"
    using ok by (cases "process_single_image env w img prompt od") auto
  have "\<exists>t. backend_text env w img prompt = Some t
         \<and> lookup w' (target_path img od) = Some (File t)"
  proof (cases "selected_backend env img")
    case LocalRecognizer
    from process_single_image_local[OF v LocalRecognizer, of prompt od] run
    obtain t where "get_transcription_from_local_ocr env img = Some t"
      and "save_result (w\<lparr>calls := calls w @ [Classify img, LocalOCR img]\<rparr>) t img od = (True, w')"
      by (cases "get_transcription_from_local_ocr env img") auto
    with LocalRecognizer show ?thesis
      by (auto simp: backend_text_def dest: save_result_success)
  next
    case CloudTranscriber
    from process_single_image_cloud[OF v CloudTranscriber, of prompt od] run
    obtain t where "get_transcription_from_llm env w img prompt = Some t"
      and "save_result (w\<lparr>calls := calls w @ [Classify img, CloudLLM img prompt]\<rparr>) t img od
             = (True, w')"
      by (cases "get_transcription_from_llm env w img prompt") (auto split: if_splits)
    with CloudTranscriber show ?thesis
      by (auto simp: backend_text_def dest: save_result_success)
  qed
  moreover have "stem (target_path img od) = stem img"
    using v by (intro stem_target_path) (simp add: validate_supported)
  ultimately show "(\<exists>t. backend_text env w img prompt = Some t
         \<and> lookup (snd (process_single_image env w img prompt od)) (target_path img od) =
             Some (File t))
     \<and> target_path img od = joinpath (target_dir img od) (stem img @ ''.txt'')
     \<and> stem (target_path img od) = stem img"
    using run by (simp add: target_path_def)
qed

theorem successful_item_output_witness:
  "fst (process_single_image example_env example_world [''docs'', ''photo.jpg'']
          ''Transcribe this.'' (Some [''out'']))
   \<and> selected_backend example_env [''docs'', ''photo.jpg''] = LocalRecognizer
   \<and> backend_text example_env example_world [''docs'', ''photo.jpg''] ''Transcribe this.''
       = Some ''Dear Sir''
   \<and> target_path [''docs'', ''photo.jpg''] (Some [''out'']) = [''out'', ''photo.txt'']
   \<and> lookup (snd (process_single_image example_env example_world [''docs'', ''photo.jpg'']
          ''Transcribe this.'' (Some [''out'']))) [''out'', ''photo.txt''] = Some (File ''Dear Sir'')
   \<and> stem [''out'', ''photo.txt''] = stem [''docs'', ''photo.jpg'']"
proof -
  have h: "fst (process_single_image example_env example_world [''docs'', ''photo.jpg'']
          ''Transcribe this.'' (Some [''out'']))"
    by code_simp
  have sel: "selected_backend example_env [''docs'', ''photo.jpg''] = LocalRecognizer"
    by code_simp
  have bt: "backend_text example_env example_world [''docs'', ''photo.jpg''] ''Transcribe this.''
       = Some ''Dear Sir''"
    by code_simp
  have tp: "target_path [''docs'', ''photo.jpg''] (Some [''out'']) = [''out'', ''photo.txt'']"
    by code_simp
  from successful_item_output
         [of example_env example_world "[''docs'', ''photo.jpg'']" "''Transcribe this.''"
             "Some [''out'']"] h
  have "(\<exists>t. backend_text example_env example_world [''docs'', ''photo.jpg''] ''Transcribe this.''
              = Some t
           \<and> lookup (snd (process_single_image example_env example_world [''docs'', ''photo.jpg'']
                ''Transcribe this.'' (Some [''out''])))
                (target_path [''docs'', ''photo.jpg''] (Some [''out''])) = Some (File t))
        \<and> stem (target_path [''docs'', ''photo.jpg''] (Some [''out''])) = stem [''docs'', ''photo.jpg'']"
    by blast
  with bt tp
  have "lookup (snd (process_single_image example_env example_world [''docs'', ''photo.jpg'']
          ''Transcribe this.'' (Some [''out'']))) [''out'', ''photo.txt''] = Some (File ''Dear Sir'')"
    and "stem [''out'', ''photo.txt''] = stem [''docs'', ''photo.jpg'']"
    by auto
  with h sel bt tp show ?thesis by blast
qed

section \<open>The prompt\<close>






section \<open>The batch\<close>

lemma save_result_keeps:
  assumes "save_result w t img od = (b, w')" and "exists w q"
  shows "exists w' q \<and> is_file w' q = is_file w q"
proof -
  obtain r where "save_transcription w t (PyPath img) (as_pyval od) = (r, w')"
    using assms(1) by (auto simp: save_result_def split: prod.splits option.splits)
  from save_transcription_keeps[OF this assms(2)] show ?thesis by simp
qed

lemma save_result_calls:
  assumes "save_result w t img od = (b, w')"
  shows "\<exists>cs. calls w' = calls w @ cs"
proof -
  obtain r where "save_transcription w t (PyPath img) (as_pyval od) = (r, w')"
    using assms(1) by (auto simp: save_result_def split: prod.splits option.splits)
  from save_transcription_calls[OF this] show ?thesis by auto
qed

lemma process_single_image_keeps:
  assumes "process_single_image env w img prompt od = (b, w')" and "exists w q"
  shows "exists w' q \<and> is_file w' q = is_file w q"
proof (cases "validate_image_file w (PyPath img)")
  case False
  with assms show ?thesis by (simp add: process_single_image_invalid)
next
  case True
  show ?thesis
  proof (cases "selected_backend env img")
    case LocalRecognizer
    let ?w2 = "w\<lparr>calls := calls w @ [Classify img, LocalOCR img]\<rparr>"
    have ex: "exists ?w2 q" using assms(2) by simp
    from process_single_image_local[OF True LocalRecognizer, of prompt od] assms(1)
    show ?thesis
    proof (cases "get_transcription_from_local_ocr env img")
      case None
      with process_single_image_local[OF True LocalRecognizer, of prompt od] assms
      show ?thesis by auto
    next
      case (Some t)
      with process_single_image_local[OF True LocalRecognizer, of prompt od] assms(1)
      have "save_result ?w2 t img od = (b, w')" by simp
      from save_result_keeps[OF this ex] show ?thesis by simp
    qed
  next
    case CloudTranscriber
    let ?w2 = "w\<lparr>calls := calls w @ [Classify img, CloudLLM img prompt]\<rparr>"
    have ex: "exists ?w2 q" using assms(2) by simp
    note run = process_single_image_cloud[OF True CloudTranscriber, of prompt od]
    show ?thesis
    proof (cases "OPENAI_API_CONFIGURED env")
      case False
      with run assms show ?thesis by auto
    next
      case conf: True
      show ?thesis
      proof (cases "get_transcription_from_llm env w img prompt")
        case None
        with conf run assms show ?thesis by auto
      next
        case (Some t)
        with conf run assms(1) have "save_result ?w2 t img od = (b, w')" by simp
        from save_result_keeps[OF this ex] show ?thesis by simp
      qed
    qed
  qed
qed

lemma process_single_image_calls:
  assumes "process_single_image env w img prompt od = (b, w')"
  shows "\<exists>cs. calls w' = calls w @ cs"
    and "validate_image_file w (PyPath img) \<Longrightarrow> Classify img \<in> set (calls w')"
proof -
  have "(\<exists>cs. calls w' = calls w @ cs)
        \<and> (validate_image_file w (PyPath img) \<longrightarrow> Classify img \<in> set (calls w'))"
  proof (cases "validate_image_file w (PyPath img)")
    case False
    with assms show ?thesis by (simp add: process_single_image_invalid)
  next
    case True
    have "\<exists>cs. calls w' = calls w @ Classify img # cs"
    proof (cases "selected_backend env img")
      case LocalRecognizer
      let ?w2 = "w\<lparr>calls := calls w @ [Classify img, LocalOCR img]\<rparr>"
      note run = process_single_image_local[OF True LocalRecognizer, of prompt od]
      show ?thesis
      proof (cases "get_transcription_from_local_ocr env img")
        case None
        with run assms show ?thesis by auto
      next
        case (Some t)
        with run assms have "save_result ?w2 t img od = (b, w')" by simp
        from save_result_calls[OF this] show ?thesis by auto
      qed
    next
      case CloudTranscriber
      let ?w2 = "w\<lparr>calls := calls w @ [Classify img, CloudLLM img prompt]\<rparr>"
      note run = process_single_image_cloud[OF True CloudTranscriber, of prompt od]
      show ?thesis
      proof (cases "OPENAI_API_CONFIGURED env")
        case False
        with run assms show ?thesis by auto
      next
        case conf: True
        show ?thesis
        proof (cases "get_transcription_from_llm env w img prompt")
          case None
          with conf run assms show ?thesis by auto
        next
          case (Some t)
          with conf run assms have "save_result ?w2 t img od = (b, w')" by simp
          from save_result_calls[OF this] show ?thesis by auto
        qed
      qed
    qed
    then show ?thesis by auto
  qed
  then show "\<exists>cs. calls w' = calls w @ cs"
    and "validate_image_file w (PyPath img) \<Longrightarrow> Classify img \<in> set (calls w')"
    by blast+
qed

lemma iterdir_exists:
  assumes "p \<in> set (iterdir w d)"
  shows "exists w p"
proof -
  from assms have "p \<noteq> []" and "p \<in> fst ` set (nodes w)"
    by (auto simp: iterdir_def)
  then have "map_of (nodes w) p \<noteq> None"
    by (simp add: map_of_eq_None_iff)
  with \<open>p \<noteq> []\<close> show ?thesis by (simp add: exists_def lookup_def)
qed

lemma iterdir_distinct: "distinct (iterdir w d)"
  by (simp add: iterdir_def)

lemma validate_considered:
  "is_file w p \<Longrightarrow> supported p \<Longrightarrow> validate_image_file w (PyPath p)"
  by (auto simp: validate_image_file_def supported_def exists_def is_file_def
           split: option.splits)

lemma process_items_results:
  "\<forall>q \<in> set items. exists w q \<Longrightarrow>
   process_items env prompt out items (cnt, w) = (cnt', w') \<Longrightarrow>
     map fst (item_results env prompt out items w) =
       filter (\<lambda>p. is_file w p \<and> supported p) items
   \<and> processed_files_count cnt' =
       processed_files_count cnt + length (item_results env prompt out items w)
   \<and> successful_files_count cnt' =
       successful_files_count cnt + length (filter snd (item_results env prompt out items w))
   \<and> failed_files_count cnt' =
       failed_files_count cnt
         + length (filter (\<lambda>r. \<not> snd r) (item_results env prompt out items w))
   \<and> found_image_files cnt' =
       (found_image_files cnt \<or> item_results env prompt out items w \<noteq> [])
   \<and> (\<exists>cs. calls w' = calls w @ cs)
   \<and> (\<forall>p \<in> set (filter (\<lambda>p. is_file w p \<and> supported p) items).
         Classify p \<in> set (calls w'))"
proof (induction items arbitrary: cnt w)
  case Nil
  then show ?case by simp
next
  case (Cons item rest)
  show ?case
  proof (cases "is_file w item \<and> supported item")
    case False
    with Cons.prems have run: "process_items env prompt out rest (cnt, w) = (cnt', w')"
      by auto
    from Cons.prems(1) have ex: "\<forall>q \<in> set rest. exists w q" by simp
    have res: "item_results env prompt out (item # rest) w = item_results env prompt out rest w"
      using False by auto
    have fl: "filter (\<lambda>p. is_file w p \<and> supported p) (item # rest) =
              filter (\<lambda>p. is_file w p \<and> supported p) rest"
      using False by auto
    from Cons.IH[OF ex run] show ?thesis unfolding res fl .
  next
    case True
    obtain b w1 where one: "process_single_image env w item prompt (Some out) = (b, w1)"
      by (cases "process_single_image env w item prompt (Some out)")
    define cnt1 where "cnt1 = cnt\<lparr>found_image_files := True,
                         processed_files_count := processed_files_count cnt + 1\<rparr>"
    define cnt2 where "cnt2 = (if b
        then cnt1\<lparr>successful_files_count := successful_files_count cnt1 + 1\<rparr>
        else cnt1\<lparr>failed_files_count := failed_files_count cnt1 + 1\<rparr>)"
    from Cons.prems(2) True one
    have run: "process_items env prompt out rest (cnt2, w1) = (cnt', w')"
      by (cases b) (simp_all add: cnt1_def cnt2_def Let_def)
    have keep: "exists w1 q \<and> is_file w1 q = is_file w q" if "q \<in> set rest" for q
      using process_single_image_keeps[OF one] Cons.prems(1) that by simp
    then have ex: "\<forall>q \<in> set rest. exists w1 q" by blast
    have same: "filter (\<lambda>p. is_file w1 p \<and> supported p) rest =
                filter (\<lambda>p. is_file w p \<and> supported p) rest"
      using keep by (intro filter_cong) auto
    note ih = Cons.IH[OF ex run]
    have res: "item_results env prompt out (item # rest) w =
                 (item, b) # item_results env prompt out rest w1"
      using True one by simp
    from True have valid: "validate_image_file w (PyPath item)"
      by (simp add: validate_considered)
    from process_single_image_calls[OF one] valid
    obtain cs1 where c1: "calls w1 = calls w @ cs1" and cl: "Classify item \<in> set (calls w1)"
      by blast
    from ih obtain cs2 where c2: "calls w' = calls w1 @ cs2" by blast
    have "map fst (item_results env prompt out (item # rest) w) =
            filter (\<lambda>p. is_file w p \<and> supported p) (item # rest)"
      using ih same True res by simp
    moreover have "processed_files_count cnt' =
       processed_files_count cnt + length (item_results env prompt out (item # rest) w)"
      using ih res by (simp add: cnt1_def cnt2_def)
    moreover have "successful_files_count cnt' =
       successful_files_count cnt
         + length (filter snd (item_results env prompt out (item # rest) w))"
      using ih res by (simp add: cnt1_def cnt2_def)
    moreover have "failed_files_count cnt' =
       failed_files_count cnt
         + length (filter (\<lambda>r. \<not> snd r) (item_results env prompt out (item # rest) w))"
      using ih res by (simp add: cnt1_def cnt2_def)
    moreover have "found_image_files cnt' =
       (found_image_files cnt \<or> item_results env prompt out (item # rest) w \<noteq> [])"
      using ih res by (simp add: cnt1_def cnt2_def)
    moreover have "\<exists>cs. calls w' = calls w @ cs"
      using c1 c2 by simp
    moreover have "\<forall>p \<in> set (filter (\<lambda>p. is_file w p \<and> supported p) (item # rest)).
         Classify p \<in> set (calls w')"
    proof
      fix p
      assume "p \<in> set (filter (\<lambda>p. is_file w p \<and> supported p) (item # rest))"
      then consider "p = item" | "p \<in> set (filter (\<lambda>p. is_file w p \<and> supported p) rest)"
        by (auto split: if_splits)
      then show "Classify p \<in> set (calls w')"
      proof cases
        case 1
        with cl c2 show ?thesis by simp
      next
        case 2
        with ih same show ?thesis by simp
      qed
    qed
    ultimately show ?thesis by blast
  qed
qed

lemma process_directory_run:
  assumes "is_dir w d"
    and "process_items env prompt (case od of Some x \<Rightarrow> x | None \<Rightarrow> d) (iterdir w d)
           (no_counts, w) = (cnt, w')"
  shows "process_directory env w d prompt od =
           (\<not> found_image_files cnt \<or> failed_files_count cnt = 0, cnt, w')"
  using assms by (auto simp: process_directory_def Let_def)

text \<open>
  C2. A batch over a directory. The entries considered are the regular files with a
  supported extension among the immediate entries of the directory; each of them is
  processed, once and in the order of the listing, whatever happened to the items
  before it (its classification call is in the record of calls). With \<open>N\<close> the number
  of considered entries and \<open>K\<close> the number of them for which \<open>process_single_image\<close>
  returned false, the counters of \<open>process_directory\<close> end at \<open>N\<close> processed, \<open>K\<close> failed
  and \<open>N - K\<close> succeeded, and the batch succeeds exactly when \<open>K = 0\<close>. With no considered
  entry the batch succeeds with all counters at zero.
\<close>

theorem batch_summary:
  "is_dir w d \<longrightarrow>
     map fst (batch_results env w d prompt od) = considered w d
   \<and> distinct (considered w d)
   \<and> processed_files_count (batch_counters env w d prompt od) = length (considered w d)
   \<and> failed_files_count (batch_counters env w d prompt od) = batch_failures env w d prompt od
   \<and> successful_files_count (batch_counters env w d prompt od) =
       length (considered w d) - batch_failures env w d prompt od
   \<and> batch_failures env w d prompt od \<le> length (considered w d)
   \<and> batch_success env w d prompt od = (batch_failures env w d prompt od = 0)
   \<and> (\<forall>p \<in> set (considered w d). Classify p \<in> set (batch_calls env w d prompt od))
   \<and> (considered w d = [] \<longrightarrow>
        batch_success env w d prompt od
      \<and> processed_files_count (batch_counters env w d prompt od) = 0
      \<and> successful_files_count (batch_counters env w d prompt od) = 0
      \<and> failed_files_count (batch_counters env w d prompt od) = 0)"
proof (intro impI)
  assume dir: "is_dir w d"
  define out where "out = (case od of Some x \<Rightarrow> x | None \<Rightarrow> d)"
  define rs where "rs = item_results env prompt out (iterdir w d) w"
  obtain cnt w' where loop: "process_items env prompt out (iterdir w d) (no_counts, w) = (cnt, w')"
    by (cases "process_items env prompt out (iterdir w d) (no_counts, w)")
  have ex: "\<forall>q \<in> set (iterdir w d). exists w q"
    by (simp add: iterdir_exists)
  note inv = process_items_results[OF ex loop, folded rs_def]
  have run: "process_directory env w d prompt od =
           (\<not> found_image_files cnt \<or> failed_files_count cnt = 0, cnt, w')"
    using dir loop unfolding out_def by (rule process_directory_run)
  have brs: "batch_results env w d prompt od = rs"
    by (simp add: batch_results_def rs_def out_def)
  have n: "length rs = length (considered w d)"
  proof -
    from inv have "map fst rs = considered w d" by (simp add: considered_def)
    then have "length (map fst rs) = length (considered w d)" by simp
    then show ?thesis by simp
  qed
  have split: "length (filter snd rs) + length (filter (\<lambda>r. \<not> snd r) rs) = length rs"
    by (rule sum_length_filter_compl)
  have k: "batch_failures env w d prompt od = length (filter (\<lambda>r. \<not> snd r) rs)"
    by (simp add: batch_failures_def brs)
  have c: "batch_counters env w d prompt od = cnt"
    and s: "batch_success env w d prompt od =
             (\<not> found_image_files cnt \<or> failed_files_count cnt = 0)"
    and l: "batch_calls env w d prompt od = calls w'"
    by (simp_all add: batch_counters_def batch_success_def batch_calls_def run)
  from inv have p1: "map fst (batch_results env w d prompt od) = considered w d"
    by (simp add: brs considered_def)
  from inv n have p2: "processed_files_count (batch_counters env w d prompt od)
                        = length (considered w d)"
    by (simp add: c no_counts_def)
  from inv have p3: "failed_files_count (batch_counters env w d prompt od)
                        = batch_failures env w d prompt od"
    by (simp add: c k no_counts_def)
  from inv split n have p4: "successful_files_count (batch_counters env w d prompt od) =
       length (considered w d) - batch_failures env w d prompt od"
    by (simp add: c k no_counts_def)
  from split n have p5: "batch_failures env w d prompt od \<le> length (considered w d)"
    by (simp add: k)
  have p6: "batch_success env w d prompt od = (batch_failures env w d prompt od = 0)"
  proof (cases "rs = []")
    case True
    with inv show ?thesis by (simp add: s k no_counts_def)
  next
    case False
    with inv have "found_image_files cnt" by simp
    with inv show ?thesis by (simp add: s k no_counts_def)
  qed
  from inv have p7: "\<forall>p \<in> set (considered w d). Classify p \<in> set (batch_calls env w d prompt od)"
    by (simp add: l considered_def)
  have p8: "batch_success env w d prompt od
      \<and> processed_files_count (batch_counters env w d prompt od) = 0
      \<and> successful_files_count (batch_counters env w d prompt od) = 0
      \<and> failed_files_count (batch_counters env w d prompt od) = 0"
    if "considered w d = []"
    using that p2 p3 p4 p5 p6 by simp
  have p0: "distinct (considered w d)"
    by (simp add: considered_def iterdir_distinct)
  from p0 p1 p2 p3 p4 p5 p6 p7 p8
  show "map fst (batch_results env w d prompt od) = considered w d
   \<and> distinct (considered w d)
   \<and> processed_files_count (batch_counters env w d prompt od) = length (considered w d)
   \<and> failed_files_count (batch_counters env w d prompt od) = batch_failures env w d prompt od
   \<and> successful_files_count (batch_counters env w d prompt od) =
       length (considered w d) - batch_failures env w d prompt od
   \<and> batch_failures env w d prompt od \<le> length (considered w d)
   \<and> batch_success env w d prompt od = (batch_failures env w d prompt od = 0)
   \<and> (\<forall>p \<in> set (considered w d). Classify p \<in> set (batch_calls env w d prompt od))
   \<and> (considered w d = [] \<longrightarrow>
        batch_success env w d prompt od
      \<and> processed_files_count (batch_counters env w d prompt od) = 0
      \<and> successful_files_count (batch_counters env w d prompt od) = 0
      \<and> failed_files_count (batch_counters env w d prompt od) = 0)"
    by blast
qed

theorem batch_summary_witness:
  "is_dir example_world [''docs'']
   \<and> considered example_world [''docs''] =
       [[''docs'', ''photo.jpg''], [''docs'', ''form.jpg''], [''docs'', ''report.jpg''],
        [''docs'', ''blurry.JPG'']]
   \<and> batch_results example_env example_world [''docs''] ''Transcribe this.'' None =
       [([''docs'', ''photo.jpg''], True), ([''docs'', ''form.jpg''], True),
        ([''docs'', ''report.jpg''], False), ([''docs'', ''blurry.JPG''], True)]
   \<and> batch_failures example_env example_world [''docs''] ''Transcribe this.'' None = 1
   \<and> processed_files_count
        (batch_counters example_env example_world [''docs''] ''Transcribe this.'' None) = 4
   \<and> successful_files_count
        (batch_counters example_env example_world [''docs''] ''Transcribe this.'' None) = 3
   \<and> failed_files_count
        (batch_counters example_env example_world [''docs''] ''Transcribe this.'' None) = 1
   \<and> \<not> batch_success example_env example_world [''docs''] ''Transcribe this.'' None
   \<and> Classify [''docs'', ''blurry.JPG'']
       \<in> set (batch_calls example_env example_world [''docs''] ''Transcribe this.'' None)
   \<and> is_dir example_world [''out'']
   \<and> considered example_world [''out''] = []
   \<and> batch_success example_env example_world [''out''] ''Transcribe this.'' None
   \<and> processed_files_count
        (batch_counters example_env example_world [''out''] ''Transcribe this.'' None) = 0"
proof -
  have d1: "is_dir example_world [''docs'']" and d2: "is_dir example_world [''out'']"
    by code_simp+
  have c1: "considered example_world [''docs''] =
       [[''docs'', ''photo.jpg''], [''docs'', ''form.jpg''], [''docs'', ''report.jpg''],
        [''docs'', ''blurry.JPG'']]"
    by code_simp
  have c2: "considered example_world [''out''] = []"
    by code_simp
  have r: "batch_results example_env example_world [''docs''] ''Transcribe this.'' None =
       [([''docs'', ''photo.jpg''], True), ([''docs'', ''form.jpg''], True),
        ([''docs'', ''report.jpg''], False), ([''docs'', ''blurry.JPG''], True)]"
    by code_simp
  then have k: "batch_failures example_env example_world [''docs''] ''Transcribe this.'' None = 1"
    by (simp add: batch_failures_def)
  note a = batch_summary[of example_world "[''docs'']" example_env "''Transcribe this.''" None]
  note b = batch_summary[of example_world "[''out'']" example_env "''Transcribe this.''" None]
  from a d1 c1 k
  have a1: "processed_files_count
        (batch_counters example_env example_world [''docs''] ''Transcribe this.'' None) = 4"
    and a2: "successful_files_count
        (batch_counters example_env example_world [''docs''] ''Transcribe this.'' None) = 3"
    and a3: "failed_files_count
        (batch_counters example_env example_world [''docs''] ''Transcribe this.'' None) = 1"
    and a4: "\<not> batch_success example_env example_world [''docs''] ''Transcribe this.'' None"
    and a5: "Classify [''docs'', ''blurry.JPG'']
       \<in> set (batch_calls example_env example_world [''docs''] ''Transcribe this.'' None)"
    by simp_all
  from b d2 c2
  have b1: "batch_success example_env example_world [''out''] ''Transcribe this.'' None"
    and b2: "processed_files_count
        (batch_counters example_env example_world [''out''] ''Transcribe this.'' None) = 0"
    by simp_all
  from d1 c1 r k a1 a2 a3 a4 a5 d2 c2 b1 b2 show ?thesis by blast
qed

end
